theory Spec2Isabelle
  imports Complex_Main "HOL-Library.Log_Nat"
begin

section \<open>Numbers, errors and the numpy primitives the module uses\<close>

text \<open>
  The module \<open>Scripts/CST/solver_module.py\<close> computes with IEEE doubles (Python floats
  and numpy \<open>float64\<close> arrays). The embedding takes their values as \<^typ>\<open>real\<close> and
  \<^typ>\<open>complex\<close> numbers and computes with them exactly, with one exception: the number
  of points of \<open>np.arange\<close> is \<open>ceil((stop - start)/step)\<close> computed in doubles, from a
  total time \<open>T = N*dt\<close> that is itself a rounded product, and one unit in the last place
  there decides whether the arrays handed to \<open>np.interp\<close> agree in length. Those
  operations are rounded with \<open>fl\<close>, the rounding to the nearest double.
  Diagnostic \<open>print\<close> calls are left out, and with them the name \<open>unit\<close> that only a
  \<open>print\<close> of \<open>calc_long_WP\<close> reads. The names \<open>dx\<close> and \<open>dy\<close> that \<open>calc_trans_WP\<close>
  reads from the enclosing scope are parameters of its model, and the archive that
  \<open>read_Ez\<close> opens is an argument of the model of \<open>calc_long_WP\<close>.

  Exceptions are values of \<open>py_error\<close>. Where numpy does not raise but continues with
  \<open>nan\<close> or \<open>inf\<close> (a division of an array by zero), the real-number model has no value
  to continue with and stops with \<open>NonFinite\<close>.
\<close>

datatype py_error = IndexError | ValueError | ZeroDivisionError | OverflowError | NonFinite

text \<open>Python's \<open>int(x)\<close> on a float truncates toward zero.\<close>

definition py_int :: "real \<Rightarrow> int" where
  "py_int x = (if 0 \<le> x then \<lfloor>x\<rfloor> else \<lceil>x\<rceil>)"

text \<open>Indexing a sequence with a Python integer: a negative index counts from the end,
  anything outside \<open>[-len, len)\<close> raises \<open>IndexError\<close>.\<close>

definition np_index :: "'a list \<Rightarrow> int \<Rightarrow> py_error + 'a" where
  "np_index xs i =
     (if 0 \<le> i \<and> i < int (length xs) then Inr (xs ! nat i)
      else if i < 0 \<and> - int (length xs) \<le> i then Inr (xs ! nat (int (length xs) + i))
      else Inl IndexError)"

text \<open>Indexing a two-dimensional array \<open>A[k, it]\<close>, stored as the list of its rows.\<close>

definition np_index2 :: "'a list list \<Rightarrow> int \<Rightarrow> int \<Rightarrow> py_error + 'a" where
  "np_index2 A k it =
     (case np_index A k of Inl e \<Rightarrow> Inl e | Inr row \<Rightarrow> np_index row it)"

text \<open>\<open>np.linspace(start, stop, num)\<close> with the default \<open>endpoint=True\<close>: \<open>num\<close> evenly
  spaced samples, the last one being \<open>stop\<close>; a negative \<open>num\<close> raises \<open>ValueError\<close>.\<close>

definition linspace :: "real \<Rightarrow> real \<Rightarrow> int \<Rightarrow> py_error + real list" where
  "linspace start stop num =
     (if num < 0 then Inl ValueError
      else if num = 1 then Inr [start]
      else Inr (map (\<lambda>i. start + real i * ((stop - start) / real_of_int (num - 1)))
                  [0..<nat num]))"

text \<open>Rounding to the nearest double (binary64, 53 significant bits, ties to the even
  significand). \<open>expo x\<close> is the binary exponent of \<open>x\<close>, the integer \<open>e\<close> with
  \<open>2^e \<le> |x| < 2^(e+1)\<close>; the doubles of that binade are the multiples of
  \<open>2^(e-52)\<close>. The exponent range is not bounded: overflow and gradual underflow are
  not modelled.\<close>

definition round_even :: "real \<Rightarrow> int" where
  "round_even y =
     (let f = \<lfloor>y\<rfloor>; d = y - of_int f
      in if d < 1 / 2 then f
         else if 1 / 2 < d then f + 1
         else if even f then f else f + 1)"

definition expo :: "real \<Rightarrow> int" where
  "expo x =
     (if 1 \<le> \<bar>x\<bar> then bitlen \<lfloor>\<bar>x\<bar>\<rfloor> - 1
      else - bitlen (\<lceil>1 / \<bar>x\<bar>\<rceil> - 1))"

definition fl :: "real \<Rightarrow> real" where
  "fl x =
     (if x = 0 then 0
      else
        let u = 2 powi (expo x - 52)
        in of_int (round_even (x / u)) * u)"

text \<open>\<open>np.arange(start, stop, step)\<close> with Python floats: the length is the ceiling of
  the double quotient \<open>(stop - start)/step\<close>, the samples are \<open>start + i*step\<close>; a zero
  step raises.\<close>

definition arange :: "real \<Rightarrow> real \<Rightarrow> real \<Rightarrow> py_error + real list" where
  "arange start stop step =
     (if step = 0 then Inl ZeroDivisionError
      else Inr (map (\<lambda>i. start + real i * step)
                  [0..<nat \<lceil>fl (fl (stop - start) / step)\<rceil>]))"

text \<open>\<open>np.interp(x, xp, fp)\<close> at one point \<open>x\<close>, for increasing sample points \<open>xp\<close>:
  \<open>fp[0]\<close> to the left of \<open>xp[0]\<close>, \<open>fp[-1]\<close> to the right of \<open>xp[-1]\<close>, and
  \<open>slope*(x - xp[j]) + fp[j]\<close> on the interval \<open>xp[j] \<le> x < xp[j+1]\<close>.\<close>

fun interp1 :: "real \<Rightarrow> real list \<Rightarrow> real list \<Rightarrow> real" where
  "interp1 x (x0 # x1 # xp) (f0 # f1 # fp) =
     (if x \<le> x0 then f0
      else if x < x1 then (f1 - f0) / (x1 - x0) * (x - x0) + f0
      else interp1 x (x1 # xp) (f1 # fp))"
| "interp1 x xp (f0 # fp) = f0"
| "interp1 x xp [] = 0"

text \<open>The array version; numpy raises \<open>ValueError\<close> when \<open>xp\<close> is empty or \<open>xp\<close> and
  \<open>fp\<close> differ in length.\<close>

definition interp :: "real list \<Rightarrow> real list \<Rightarrow> real list \<Rightarrow> py_error + real list" where
  "interp xs xp fp =
     (if xp = [] \<or> length xp \<noteq> length fp then Inl ValueError
      else Inr (map (\<lambda>x. interp1 x xp fp) xs))"

text \<open>The builtins \<open>max\<close> and \<open>min\<close> over a sequence; \<open>ValueError\<close> on an empty one.\<close>

definition py_max :: "real list \<Rightarrow> py_error + real" where
  "py_max xs = (case xs of [] \<Rightarrow> Inl ValueError | x # r \<Rightarrow> Inr (fold max r x))"

definition py_min :: "real list \<Rightarrow> py_error + real" where
  "py_min xs = (case xs of [] \<Rightarrow> Inl ValueError | x # r \<Rightarrow> Inr (fold min r x))"

text \<open>A \<open>for\<close> loop over a list of indices whose body may raise: the first exception
  ends the loop.\<close>

fun for_loop :: "('a \<Rightarrow> 'b \<Rightarrow> py_error + 'b) \<Rightarrow> 'a list \<Rightarrow> 'b \<Rightarrow> py_error + 'b" where
  "for_loop body [] st = Inr st"
| "for_loop body (x # xs) st =
     (case body x st of Inl e \<Rightarrow> Inl e | Inr st' \<Rightarrow> for_loop body xs st')"

section \<open>Longitudinal wake potential: \<open>calc_long_WP\<close>\<close>

text \<open>The metadata dictionary read with \<open>data.get\<close> (keys \<open>t\<close>, \<open>z\<close>, \<open>init_time\<close>,
  \<open>q\<close>).\<close>

record sim_data =
  data_t :: "real list"
  data_z :: "real list"
  data_init_time :: real
  data_q :: real

text \<open>\<open>scipy.constants.c\<close>, the speed of light in m/s.\<close>

definition c :: real where
  "c = 299792458"

text \<open>The local variables the accumulation loops read (lines 249 to 262): the step
  \<open>dt\<close>, the injection time, \<open>zmin\<close>, \<open>t[0]\<close>, \<open>nt\<close>, the interpolated axis \<open>zi\<close>
  with its step \<open>dzi\<close>, the \<open>nt \<times> nt\<close> array \<open>Ezi\<close> (row \<open>k\<close>, column the time
  index) and the coordinate \<open>s\<close>.\<close>

record wake_locals =
  loc_dt :: real
  loc_t_inj :: real
  loc_zmin :: real
  loc_t0 :: real
  loc_nt :: nat
  loc_zi :: "real list"
  loc_dzi :: real
  loc_Ezi :: "real list list"
  loc_s :: "real list"

text \<open>Line 258: \<open>ts[k,n]=(zi[k]+s[n])/c-zmin/c-t[0]+t_inj\<close>.\<close>

definition ts_kn :: "wake_locals \<Rightarrow> nat \<Rightarrow> nat \<Rightarrow> real" where
  "ts_kn L k n = (loc_zi L ! k + loc_s L ! n) / c - loc_zmin L / c - loc_t0 L + loc_t_inj L"

text \<open>Line 261: \<open>it=int(ts[k,n]/dt)-1\<close>.\<close>

definition it_kn :: "wake_locals \<Rightarrow> nat \<Rightarrow> nat \<Rightarrow> int" where
  "it_kn L k n = py_int (ts_kn L k n / loc_dt L) - 1"

text \<open>The body of the \<open>k\<close> loop (lines 258 to 262) acting on \<open>WP[n]\<close>. The entry
  \<open>ts[k,n]\<close> is a numpy scalar: divided by \<open>dt = 0\<close> it is \<open>inf\<close>, on which \<open>int\<close>
  raises \<open>OverflowError\<close>.\<close>

definition k_body :: "wake_locals \<Rightarrow> nat \<Rightarrow> nat \<Rightarrow> real \<Rightarrow> py_error + real" where
  "k_body L n k WPn =
     (if ts_kn L k n > 0 then
        (if loc_dt L = 0 then Inl OverflowError
         else
           (case np_index2 (loc_Ezi L) (int k) (it_kn L k n) of
              Inl e \<Rightarrow> Inl e
            | Inr Ez \<Rightarrow> Inr (WPn + Ez * loc_dzi L)))
      else Inr WPn)"

text \<open>Lines 257 to 262: \<open>for k in range(0, nt)\<close>.\<close>

definition k_loop :: "wake_locals \<Rightarrow> nat \<Rightarrow> real \<Rightarrow> py_error + real" where
  "k_loop L n WPn = for_loop (k_body L n) [0..<loc_nt L] WPn"

text \<open>Lines 249 to 262: \<open>for n in range(len(s))\<close>, updating \<open>WP\<close> in place.\<close>

definition s_body :: "wake_locals \<Rightarrow> nat \<Rightarrow> real list \<Rightarrow> py_error + real list" where
  "s_body L n WP =
     (case k_loop L n (WP ! n) of Inl e \<Rightarrow> Inl e | Inr w \<Rightarrow> Inr (WP[n := w]))"

definition s_loop :: "wake_locals \<Rightarrow> real list \<Rightarrow> py_error + real list" where
  "s_loop L WP = for_loop (s_body L) [0..<length (loc_s L)] WP"

text \<open>Lines 213 to 218: the wake length and the coordinate \<open>s\<close>. With \<open>dt\<close> a Python
  float, \<open>t_inj/dt\<close> raises on \<open>dt = 0\<close>.\<close>

definition Wake_length :: "nat \<Rightarrow> real \<Rightarrow> real \<Rightarrow> real \<Rightarrow> real \<Rightarrow> real" where
  "Wake_length nt dt zmax zmin t_inj = real nt * dt * c - (zmax - zmin) - t_inj * c"

definition calc_s :: "real \<Rightarrow> real \<Rightarrow> real \<Rightarrow> py_error + real list" where
  "calc_s t_inj dt wl =
     (if dt = 0 then Inl ZeroDivisionError
      else
        let ns_neg = py_int (t_inj / dt);
            ns_pos = py_int (wl / (dt * c))
        in (case linspace (- t_inj * c) 0 ns_neg of
              Inl e \<Rightarrow> Inl e
            | Inr s_neg \<Rightarrow>
                (case linspace 0 wl ns_pos of
                   Inl e \<Rightarrow> Inl e
                 | Inr s_pos \<Rightarrow> Inr (s_neg @ s_pos))))"

text \<open>The field archive \<open>hf\<close> is the list of its datasets in the order of \<open>dataset\<close>,
  each a grid indexed \<open>[x][y][z]\<close>. Line 240 and the slice of line 241:
  \<open>hf.get(dataset[n])[ix, iy, :]\<close>.\<close>

type_synonym field = "real list list list list"

definition Ez_line :: "field \<Rightarrow> nat \<Rightarrow> int \<Rightarrow> int \<Rightarrow> py_error + real list" where
  "Ez_line hf n ix iy =
     (case np_index hf (int n) of
        Inl e \<Rightarrow> Inl e
      | Inr Ez \<Rightarrow>
          (case np_index Ez ix of
             Inl e \<Rightarrow> Inl e
           | Inr plane \<Rightarrow> np_index plane iy))"

text \<open>Line 241: \<open>Ezi[:, n] = col\<close> writes column \<open>n\<close> of \<open>Ezi\<close>.\<close>

definition set_column :: "real list list \<Rightarrow> nat \<Rightarrow> real list \<Rightarrow> real list list" where
  "set_column A n col = map (\<lambda>(row, v). row[n := v]) (zip A col)"

text \<open>Lines 239 to 241: the interpolation loop filling \<open>Ezi\<close> for the offset \<open>(i, j)\<close>.\<close>

definition Ezi_body ::
  "field \<Rightarrow> real list \<Rightarrow> real list \<Rightarrow> int \<Rightarrow> int \<Rightarrow> nat \<Rightarrow> real list list \<Rightarrow> py_error + real list list"
where
  "Ezi_body hf zi z i j n A =
     (case Ez_line hf n (1 + i) (1 + j) of
        Inl e \<Rightarrow> Inl e
      | Inr line \<Rightarrow>
          (case interp zi z line of
             Inl e \<Rightarrow> Inl e
           | Inr col \<Rightarrow> Inr (set_column A n col)))"

text \<open>The state the two offset loops carry from one offset to the next: the buffer
  \<open>Ezi\<close>, the accumulator \<open>WP\<close> (allocated once, on line 227, before the loops) and the
  result \<open>WP_3d\<close>.\<close>

record wake_state =
  st_Ezi :: "real list list"
  st_WP :: "real list"
  st_WP_3d :: "real list list list"

text \<open>Lines 236 to 266: the body of the offset loops for the offset \<open>(i, j)\<close>. Dividing the
  array \<open>WP\<close> by \<open>q*1e12 = 0\<close> leaves \<open>nan\<close> and \<open>inf\<close> in it.\<close>

definition offset_body ::
  "sim_data \<Rightarrow> field \<Rightarrow> wake_locals \<Rightarrow> int \<times> int \<Rightarrow> wake_state \<Rightarrow> py_error + wake_state"
where
  "offset_body data hf L ij st =
     (case for_loop (Ezi_body hf (loc_zi L) (data_z data) (fst ij) (snd ij))
             [0..<loc_nt L] (st_Ezi st) of
        Inl e \<Rightarrow> Inl e
      | Inr A \<Rightarrow>
          (case s_loop (L\<lparr>loc_Ezi := A\<rparr>) (st_WP st) of
             Inl e \<Rightarrow> Inl e
           | Inr WP \<Rightarrow>
               if data_q data * 10 ^ 12 = 0 then Inl NonFinite
               else
                 let WP' = map (\<lambda>w. w / (data_q data * 10 ^ 12)) WP;
                     ix = nat (1 + fst ij);
                     iy = nat (1 + snd ij)
                 in Inr \<lparr>st_Ezi = A, st_WP = WP',
                         st_WP_3d = (st_WP_3d st)[ix := (st_WP_3d st ! ix)[iy := WP']]\<rparr>))"

text \<open>\<open>calc_long_WP\<close> with the list of offsets the two loops of lines 234 and 235 visit
  as a parameter; \<open>read_Ez\<close> reads \<open>dataset[0]\<close>, \<open>t[2]\<close> and \<open>zi[2]\<close> need three
  samples.\<close>

definition calc_long_WP_over ::
  "(int \<times> int) list \<Rightarrow> sim_data \<Rightarrow> field \<Rightarrow> py_error + real list list list \<times> real list"
where
  "calc_long_WP_over offsets data hf =
     (if hf = [] then Inl IndexError
      else
        let t = data_t data; z = data_z data; t_inj = data_init_time data;
            nt = length t
        in if nt < 3 then Inl IndexError
           else
             let dt = t ! 2 - t ! 1
             in (case py_max z of
                  Inl e \<Rightarrow> Inl e
                | Inr zmax \<Rightarrow>
                    (case py_min z of
                       Inl e \<Rightarrow> Inl e
                     | Inr zmin \<Rightarrow>
                         (case linspace zmin zmax (int nt) of
                            Inl e \<Rightarrow> Inl e
                          | Inr zi \<Rightarrow>
                              (case calc_s t_inj dt (Wake_length nt dt zmax zmin t_inj) of
                                 Inl e \<Rightarrow> Inl e
                               | Inr s \<Rightarrow>
                                   (let L = \<lparr>loc_dt = dt, loc_t_inj = t_inj, loc_zmin = zmin,
                                            loc_t0 = t ! 0, loc_nt = nt, loc_zi = zi,
                                            loc_dzi = zi ! 2 - zi ! 1,
                                            loc_Ezi = replicate nt (replicate nt 0),
                                            loc_s = s\<rparr>;
                                       st = \<lparr>st_Ezi = replicate nt (replicate nt 0),
                                             st_WP = replicate (length s) 0,
                                             st_WP_3d = replicate 3 (replicate 3
                                                          (replicate (length s) 0))\<rparr>
                                   in (case for_loop (offset_body data hf L) offsets st of
                                         Inl e \<Rightarrow> Inl e
                                       | Inr st' \<Rightarrow> Inr (st_WP_3d st', s))))))))"

text \<open>Lines 234 and 235: \<open>for i in range(-i0,i0+1,1): for j in range(-j0,j0+1,1)\<close>
  with \<open>i0 = j0 = 1\<close>.\<close>

definition offsets9 :: "(int \<times> int) list" where
  "offsets9 = concat (map (\<lambda>i. map (\<lambda>j. (i, j)) [-1, 0, 1]) [-1, 0, 1])"

definition calc_long_WP ::
  "sim_data \<Rightarrow> field \<Rightarrow> py_error + real list list list \<times> real list"
where
  "calc_long_WP data hf = calc_long_WP_over offsets9 data hf"

section \<open>Transverse wake potential: \<open>calc_trans_WP\<close>\<close>

text \<open>Reading \<open>A[i, j, n]\<close> and the slice \<open>A[i, j, :]\<close> of a three-dimensional array, and
  the assignment \<open>A[i, j, n] = v\<close>; each index is checked against its axis.\<close>

definition np_slice3 :: "real list list list \<Rightarrow> int \<Rightarrow> int \<Rightarrow> py_error + real list" where
  "np_slice3 A i j =
     (case np_index A i of Inl e \<Rightarrow> Inl e | Inr plane \<Rightarrow> np_index plane j)"

definition np_index3 :: "real list list list \<Rightarrow> int \<Rightarrow> int \<Rightarrow> int \<Rightarrow> py_error + real" where
  "np_index3 A i j n =
     (case np_slice3 A i j of Inl e \<Rightarrow> Inl e | Inr row \<Rightarrow> np_index row n)"

definition np_assign3 ::
  "real list list list \<Rightarrow> nat \<Rightarrow> nat \<Rightarrow> nat \<Rightarrow> real \<Rightarrow> py_error + real list list list"
where
  "np_assign3 A i j n v =
     (if i < length A \<and> j < length (A ! i) \<and> n < length (A ! i ! j)
      then Inr (A[i := (A ! i)[j := (A ! i ! j)[n := v]]])
      else Inl IndexError)"

text \<open>Lines 288 to 291: one pass of the two offset loops at output index \<open>n\<close>,
  \<open>int_WP[i0+i,j0+j,n]=np.sum(WP_3d[i0+i,j0+j,0:n])*ds\<close>.\<close>

definition int_WP_body ::
  "real list list list \<Rightarrow> real \<Rightarrow> nat \<Rightarrow> int \<times> int \<Rightarrow> real list list list
     \<Rightarrow> py_error + real list list list"
where
  "int_WP_body WP_3d ds n ij int_WP =
     (case np_slice3 WP_3d (1 + fst ij) (1 + snd ij) of
        Inl e \<Rightarrow> Inl e
      | Inr row \<Rightarrow>
          np_assign3 int_WP (nat (1 + fst ij)) (nat (1 + snd ij)) n
            (sum_list (take n row) * ds))"

text \<open>The state of the \<open>n\<close> loop: \<open>int_WP\<close>, \<open>WPx\<close> and \<open>WPy\<close>.\<close>

record trans_state =
  st_int_WP :: "real list list list"
  st_WPx :: "real list"
  st_WPy :: "real list"

text \<open>Lines 288 to 295: the body of the \<open>n\<close> loop. \<open>dx\<close> and \<open>dy\<close> are read from the
  enclosing scope; a zero spacing makes the quotient \<open>nan\<close> or \<open>inf\<close>.\<close>

definition trans_body ::
  "real \<Rightarrow> real \<Rightarrow> real list list list \<Rightarrow> real \<Rightarrow> nat \<Rightarrow> trans_state \<Rightarrow> py_error + trans_state"
where
  "trans_body dx dy WP_3d ds n st =
     (case for_loop (int_WP_body WP_3d ds n) offsets9 (st_int_WP st) of
        Inl e \<Rightarrow> Inl e
      | Inr A \<Rightarrow>
          (case np_index3 A 2 1 (int n) of Inl e \<Rightarrow> Inl e | Inr xp \<Rightarrow>
          (case np_index3 A 0 1 (int n) of Inl e \<Rightarrow> Inl e | Inr xm \<Rightarrow>
             if 2 * dx = 0 then Inl NonFinite
             else
          (case np_index3 A 1 2 (int n) of Inl e \<Rightarrow> Inl e | Inr yp \<Rightarrow>
          (case np_index3 A 1 0 (int n) of Inl e \<Rightarrow> Inl e | Inr ym \<Rightarrow>
             if 2 * dy = 0 then Inl NonFinite
             else Inr \<lparr>st_int_WP = A,
                       st_WPx = (st_WPx st)[n := - (xp - xm) / (2 * dx)],
                       st_WPy = (st_WPy st)[n := - (yp - ym) / (2 * dy)]\<rparr>)))))"

text \<open>Lines 270 to 297. \<open>s[2]\<close> needs three samples; \<open>zeros_like\<close> gives \<open>int_WP\<close> the
  shape of \<open>WP_3d\<close>.\<close>

definition calc_trans_WP ::
  "real \<Rightarrow> real \<Rightarrow> real list \<Rightarrow> real list list list \<Rightarrow> py_error + real list \<times> real list"
where
  "calc_trans_WP dx dy s WP_3d =
     (if length s < 3 then Inl IndexError
      else
        let ds = s ! 2 - s ! 1;
            st = \<lparr>st_int_WP = map (map (map (\<lambda>_. 0))) WP_3d,
                  st_WPx = map (\<lambda>_. 0) s,
                  st_WPy = map (\<lambda>_. 0) s\<rparr>
        in (case for_loop (trans_body dx dy WP_3d ds) [0..<length s] st of
              Inl e \<Rightarrow> Inl e
            | Inr st' \<Rightarrow> Inr (st_WPx st', st_WPy st')))"

text \<open>The shape \<open>(3, 3, m)\<close> of the arrays \<open>WP_3d\<close> and \<open>int_WP\<close>.\<close>

definition shape3 :: "real list list list \<Rightarrow> nat \<Rightarrow> bool" where
  "shape3 A m \<longleftrightarrow>
     length A = 3 \<and> (\<forall>i<3. length (A ! i) = 3 \<and> (\<forall>j<3. length (A ! i ! j) = m))"

section \<open>Spectral transforms: \<open>FFT\<close> and \<open>DFT\<close>\<close>

text \<open>\<open>np.fft.fft\<close>: the discrete Fourier transform
  \<open>A[k] = \<Sum>m a[m] exp(-2\<pi>i mk/n)\<close>; it raises on an empty input.\<close>

definition np_fft :: "complex list \<Rightarrow> py_error + complex list" where
  "np_fft a =
     (let n = length a
      in if n = 0 then Inl ValueError
         else Inr (map (\<lambda>k. \<Sum>m<n. a ! m * cis (- 2 * pi * real m * real k / real n))
                     [0..<n]))"

text \<open>\<open>np.fft.fftfreq(n, d)\<close>: \<open>[0, 1, ..., (n-1)//2, -(n//2), ..., -1] / (d*n)\<close>.\<close>

definition fftfreq :: "nat \<Rightarrow> real \<Rightarrow> real list" where
  "fftfreq n d =
     map (\<lambda>i. real_of_int i / (d * real n))
       (map int [0..<(n - 1) div 2 + 1] @ map (\<lambda>i. int i - int (n div 2)) [0..<n div 2])"

text \<open>\<open>scipy.fftpack.rfft(x, n)\<close>: \<open>x\<close> truncated or zero-padded to length \<open>n\<close>, and its
  transform \<open>y\<close> packed as \<open>[y(0), Re y(1), Im y(1), Re y(2), Im y(2), ...]\<close>, \<open>n\<close> reals in
  all (for even \<open>n\<close> the last one is \<open>Re y(n/2)\<close>).\<close>

definition rfft :: "real list \<Rightarrow> nat \<Rightarrow> py_error + real list" where
  "rfft x n =
     (if n < 1 then Inl ValueError
      else
        let xp = take n x @ replicate (n - length x) 0;
            y = (\<lambda>k. \<Sum>m<n. complex_of_real (xp ! m) * cis (- 2 * pi * real m * real k / real n))
        in Inr (map (\<lambda>i. if i = 0 then Re (y 0)
                          else if odd i then Re (y ((i + 1) div 2))
                          else Im (y (i div 2)))
                  [0..<n]))"

text \<open>\<open>scipy.fftpack.rfftfreq(n, d)\<close>: \<open>[0, 1, 1, 2, 2, ...] / (n*d)\<close>.\<close>

definition rfftfreq :: "nat \<Rightarrow> real \<Rightarrow> real list" where
  "rfftfreq n d = map (\<lambda>i. real ((i + 1) div 2) / (real n * d)) [0..<n]"

text \<open>Indexing with a boolean mask, \<open>a[mask]\<close>: the entries where the mask is true; the
  mask must be as long as the array.\<close>

definition mask_select :: "'a list \<Rightarrow> bool list \<Rightarrow> py_error + 'a list" where
  "mask_select a msk =
     (if length msk \<noteq> length a then Inl IndexError
      else Inr (map fst (filter snd (zip a msk))))"

text \<open>Lines 27 and 28 (and 85, 86): the default \<open>fmax=1/dt\<close>.\<close>

definition default_fmax :: "real \<Rightarrow> real option \<Rightarrow> py_error + real" where
  "default_fmax dt fmax =
     (case fmax of
        Some v \<Rightarrow> Inr v
      | None \<Rightarrow> if dt = 0 then Inl ZeroDivisionError else Inr (1 / dt))"

text \<open>Lines 31 to 39 of \<open>FFT\<close>: the resampled signal \<open>Xs\<close>. \<open>T=N*dt\<close> is a double
  product; \<open>fres=1/T\<close> raises when \<open>T = 0\<close>, \<open>dts=1/(2.0*fmax)\<close> when \<open>fmax = 0\<close>.\<close>

definition FFT_resample :: "real list \<Rightarrow> real \<Rightarrow> real \<Rightarrow> py_error + real list" where
  "FFT_resample Xt dt fmax =
     (let N = length Xt; T = fl (real N * dt)
      in if T = 0 \<or> 2 * fmax = 0 then Inl ZeroDivisionError
         else
           let dts = 1 / (2 * fmax)
           in (case linspace 0 T (int N) of
                 Inl e \<Rightarrow> Inl e
               | Inr t \<Rightarrow>
                   (case arange 0 T dts of
                      Inl e \<Rightarrow> Inl e
                    | Inr ts \<Rightarrow> interp ts t Xt)))"

text \<open>Lines 89 to 97 of \<open>DFT\<close>: the same, with \<open>t=np.arange(0, T, dt)\<close>, whose
  length need not be \<open>N\<close>; \<open>np.interp\<close> then raises \<open>ValueError\<close>.\<close>

definition DFT_resample :: "real list \<Rightarrow> real \<Rightarrow> real \<Rightarrow> py_error + real list" where
  "DFT_resample Xt dt fmax =
     (let N = length Xt; T = fl (real N * dt)
      in if T = 0 \<or> 2 * fmax = 0 then Inl ZeroDivisionError
         else
           let dts = 1 / (2 * fmax)
           in (case arange 0 T dt of
                 Inl e \<Rightarrow> Inl e
               | Inr t \<Rightarrow>
                   (case arange 0 T dts of
                      Inl e \<Rightarrow> Inl e
                    | Inr ts \<Rightarrow> interp ts t Xt)))"

text \<open>Lines 34 and 40 (92 and 98): \<open>dts\<close> and \<open>Ns=N/(dts/dt)\<close>, evaluated once \<open>Xs\<close>
  exists, so with \<open>dt\<close> and \<open>fmax\<close> not zero.\<close>

definition dts_of :: "real \<Rightarrow> real" where
  "dts_of fmax = 1 / (2 * fmax)"

definition Ns_of :: "real list \<Rightarrow> real \<Rightarrow> real \<Rightarrow> real" where
  "Ns_of Xt dt fmax = real (length Xt) / (dts_of fmax / dt)"

text \<open>Lines 43 to 47: the zero padding. \<open>np.zeros(pad)\<close> raises on a negative \<open>pad\<close>.\<close>

definition FFT_pad :: "bool \<Rightarrow> real \<Rightarrow> real \<Rightarrow> real list \<Rightarrow> py_error + real list" where
  "FFT_pad flag_zeropadding r Ns Xs =
     (if flag_zeropadding then
        (let pad = py_int (r * Ns)
         in if pad < 0 then Inl ValueError
            else Inr ((replicate (nat pad) 0 @ Xs) @ replicate (nat pad) 0))
      else Inr Xs)"

text \<open>Lines 50 to 75: the transform of the signal, the mask of the non-negative
  frequencies, the normalisation and Parseval's correction. \<open>Et/Ef\<close> is \<open>nan\<close> when
  \<open>Ef = 0\<close>.\<close>

definition FFT_spectrum :: "real \<Rightarrow> real \<Rightarrow> real list \<Rightarrow> py_error + complex list \<times> real list" where
  "FFT_spectrum Ns dts Xs =
     (case np_fft (map complex_of_real Xs) of
        Inl e \<Rightarrow> Inl e
      | Inr Xfft \<Rightarrow>
          let ffft = fftfreq (length Xfft) dts;
              mask = map (\<lambda>v. v \<ge> 0) ffft
          in (case mask_select Xfft mask of
                Inl e \<Rightarrow> Inl e
              | Inr Xpos \<Rightarrow>
                  (case mask_select ffft mask of
                     Inl e \<Rightarrow> Inl e
                   | Inr f \<Rightarrow>
                       let Xf = map (\<lambda>X. 2 * X / complex_of_real Ns) Xpos;
                           Et = (\<Sum>x\<leftarrow>Xs. \<bar>x\<bar> ^ 2);
                           Ef = (\<Sum>X\<leftarrow>Xfft. (cmod X) ^ 2) / real (length ffft)
                       in if Ef = 0 then Inl NonFinite
                          else
                            let K = sqrt (Et / Ef)
                            in Inr (map (\<lambda>X. complex_of_real K * X) Xf, f))))"

text \<open>Lines 19 to 75.\<close>

definition FFT ::
  "real list \<Rightarrow> real \<Rightarrow> real option \<Rightarrow> real \<Rightarrow> bool \<Rightarrow> py_error + complex list \<times> real list"
where
  "FFT Xt dt fmax r flag_zeropadding =
     (case default_fmax dt fmax of
        Inl e \<Rightarrow> Inl e
      | Inr fm \<Rightarrow>
          (case FFT_resample Xt dt fm of
             Inl e \<Rightarrow> Inl e
           | Inr Xs \<Rightarrow>
               (case FFT_pad flag_zeropadding r (Ns_of Xt dt fm) Xs of
                  Inl e \<Rightarrow> Inl e
                | Inr Xs' \<Rightarrow> FFT_spectrum (Ns_of Xt dt fm) (dts_of fm) Xs')))"

text \<open>Lines 130 to 134 (and 141 to 145) of \<open>DFT\<close>: the assignments that fill the
  complex spectrum \<open>Z\<close> and its frequencies \<open>Zf\<close>, both of length \<open>len\<close>, from the packed
  coefficients \<open>Xf\<close>, their frequencies \<open>f\<close> and the masks \<open>Re\<close> and \<open>Im\<close>. An
  assignment to the slice \<open>Z[1:]\<close> or \<open>Zf[1:]\<close> needs operands of the slice's length.\<close>

definition DFT_assemble ::
  "real list \<Rightarrow> real list \<Rightarrow> nat \<Rightarrow> bool list \<Rightarrow> bool list
     \<Rightarrow> py_error + complex list \<times> real list"
where
  "DFT_assemble Xf f len Re_mask Im_mask =
     (case mask_select Xf Re_mask of
        Inl e \<Rightarrow> Inl e
      | Inr re \<Rightarrow>
          (case mask_select Xf Im_mask of
             Inl e \<Rightarrow> Inl e
           | Inr im \<Rightarrow>
               if length re \<noteq> length im \<or> length re \<noteq> len - 1 then Inl ValueError
               else
                 (case mask_select f Im_mask of
                    Inl e \<Rightarrow> Inl e
                  | Inr fi \<Rightarrow>
                      if length fi \<noteq> len - 1 then Inl ValueError
                      else Inr (complex_of_real (Xf ! 0) # map2 Complex re im, 0 # fi))))"

text \<open>Lines 120 to 145 of \<open>DFT\<close>: the two parity branches. \<open>Im = mask\<close> is the same
  array as \<open>mask\<close>, which is not read after \<open>Re\<close> is taken from it. For \<open>Nf = 0\<close> the
  assignment \<open>Re[-1]=False\<close> raises.\<close>

definition DFT_unpack ::
  "nat \<Rightarrow> real list \<Rightarrow> real list \<Rightarrow> py_error + complex list \<times> real list"
where
  "DFT_unpack Nf Xf f =
     (let mask = map (\<lambda>i. i mod 2 = 0) [0..<Nf]
      in (case mask_select Xf mask of
            Inl e \<Rightarrow> Inl e
          | Inr Xm \<Rightarrow>
              if Nf mod 2 = 0 then
                (if Nf = 0 then Inl IndexError
                 else
                   let Re_mask = (map Not mask)[Nf - 1 := False];
                       Im_mask = mask[0 := False]
                   in DFT_assemble Xf f (length Xm) Re_mask Im_mask)
              else
                (let Re_mask = map Not mask;
                     Im_mask = mask[0 := False]
                 in DFT_assemble Xf f (length Xm) Re_mask Im_mask)))"

text \<open>Lines 77 to 150.\<close>

definition DFT ::
  "real list \<Rightarrow> real \<Rightarrow> real option \<Rightarrow> nat \<Rightarrow> py_error + complex list \<times> real list"
where
  "DFT Xt dt fmax Nf =
     (case default_fmax dt fmax of
        Inl e \<Rightarrow> Inl e
      | Inr fm \<Rightarrow>
          (case DFT_resample Xt dt fm of
             Inl e \<Rightarrow> Inl e
           | Inr Xs \<Rightarrow>
               (case rfft Xs Nf of
                  Inl e \<Rightarrow> Inl e
                | Inr Xf \<Rightarrow>
                    let Ns = Ns_of Xt dt fm;
                        f = rfftfreq (length Xf) (dts_of fm);
                        Et = (\<Sum>x\<leftarrow>Xs. \<bar>x\<bar> ^ 2);
                        Ef = ((Xf ! 0) ^ 2 + 2 * (\<Sum>x\<leftarrow>tl Xf. x ^ 2)) / real (length f)
                    in if Ef = 0 then Inl NonFinite
                       else
                         let K = sqrt (Et / Ef)
                         in (case DFT_unpack Nf Xf f of
                               Inl e \<Rightarrow> Inl e
                             | Inr (Z, Zf) \<Rightarrow>
                                 Inr (map (\<lambda>X. complex_of_real K * X / complex_of_real (Ns / 2)) Z,
                                      Zf)))))"

section \<open>Properties of the rounding to doubles\<close>

lemma powi_nat: "0 \<le> k \<Longrightarrow> (2::real) powi k = 2 ^ nat k"
  by (simp add: power_int_def)

lemma powi_neg: "0 \<le> k \<Longrightarrow> (2::real) powi (- k) = 1 / 2 ^ nat k"
  by (simp add: power_int_def inverse_eq_divide power_one_over)

lemma expo_bounds_ge1:
  fixes y :: real
  assumes "1 \<le> y"
  shows "2 powi (bitlen \<lfloor>y\<rfloor> - 1) \<le> y \<and> y < 2 powi (bitlen \<lfloor>y\<rfloor>)"
proof -
  let ?m = "\<lfloor>y\<rfloor>" and ?k = "bitlen \<lfloor>y\<rfloor>"
  have m: "0 < ?m" using assms by simp
  then have b: "2 ^ nat (?k - 1) \<le> ?m" "?m < 2 ^ nat ?k"
    using bitlen_bounds[OF m] by auto
  have k: "1 \<le> ?k" using m bitlen_eq_zero_iff[of ?m] bitlen_nonneg[of ?m] by linarith
  have "(2::real) ^ nat (?k - 1) \<le> of_int ?m"
    using b(1) by (metis of_int_le_iff of_int_numeral of_int_power)
  also have "\<dots> \<le> y" by simp
  finally have lo: "2 powi (?k - 1) \<le> y" using k by (simp add: powi_nat)
  have "?m + 1 \<le> 2 ^ nat ?k" using b(2) by simp
  then have "of_int (?m + 1) \<le> (2::real) ^ nat ?k"
    by (metis of_int_le_iff of_int_numeral of_int_power)
  moreover have "y < of_int (?m + 1)" by linarith
  ultimately have "y < (2::real) ^ nat ?k" by linarith
  then have hi: "y < 2 powi ?k" using k by (simp add: powi_nat)
  show ?thesis using lo hi by simp
qed

lemma expo_bounds_lt1:
  fixes a :: real
  assumes "0 < a" "a < 1"
  shows "2 powi (- bitlen (\<lceil>1 / a\<rceil> - 1)) \<le> a \<and> a < 2 powi (- bitlen (\<lceil>1 / a\<rceil> - 1) + 1)"
proof -
  let ?y = "1 / a"
  let ?m = "\<lceil>?y\<rceil> - 1" and ?k = "bitlen (\<lceil>?y\<rceil> - 1)"
  have y: "1 < ?y" using assms by simp
  then have m: "0 < ?m" by (simp add: less_ceiling_iff)
  then have b: "2 ^ nat (?k - 1) \<le> ?m" "?m < 2 ^ nat ?k"
    using bitlen_bounds[OF m] by auto
  have k: "1 \<le> ?k" using m bitlen_eq_zero_iff[of ?m] bitlen_nonneg[of ?m] by linarith
  have "?m + 1 \<le> 2 ^ nat ?k" using b(2) by simp
  then have "of_int (?m + 1) \<le> (2::real) ^ nat ?k"
    by (metis of_int_le_iff of_int_numeral of_int_power)
  moreover have "?y \<le> of_int (?m + 1)" by simp
  ultimately have "?y \<le> (2::real) ^ nat ?k" by linarith
  then have "1 \<le> a * 2 ^ nat ?k" using assms by (simp add: field_simps)
  then have lo: "2 powi (- ?k) \<le> a" using k by (simp add: powi_neg field_simps)
  have "(2::real) ^ nat (?k - 1) \<le> of_int ?m"
    using b(1) by (metis of_int_le_iff of_int_numeral of_int_power)
  moreover have "of_int ?m < ?y" by linarith
  ultimately have "(2::real) ^ nat (?k - 1) < ?y" by linarith
  then have "a * 2 ^ nat (?k - 1) < 1" using assms by (simp add: field_simps)
  moreover have "- ?k + 1 = - (?k - 1)" by simp
  ultimately have hi: "a < 2 powi (- ?k + 1)"
    using k by (simp only: powi_neg) (simp add: field_simps)
  show ?thesis using lo hi by simp
qed

lemma expo_bounds:
  assumes "x \<noteq> 0"
  shows "2 powi expo x \<le> \<bar>x\<bar> \<and> \<bar>x\<bar> < 2 powi (expo x + 1)"
proof (cases "1 \<le> \<bar>x\<bar>")
  case True
  then show ?thesis using expo_bounds_ge1[OF True] by (simp add: expo_def)
next
  case False
  then have "0 < \<bar>x\<bar>" "\<bar>x\<bar> < 1" using assms by auto
  from expo_bounds_lt1[OF this] False show ?thesis by (simp add: expo_def)
qed

lemma expo_eqI:
  assumes "2 powi e \<le> \<bar>x\<bar>" "\<bar>x\<bar> < 2 powi (e + 1)"
  shows "expo x = e"
proof -
  have pos: "0 < \<bar>x\<bar>" using assms(1) by (smt (verit) zero_less_power_int)
  then have x: "x \<noteq> 0" by auto
  have "\<lfloor>log 2 \<bar>x\<bar>\<rfloor> = e"
    using assms pos by (simp add: floor_log_eq_powr_iff powr_real_of_int' del: of_int_add)
  moreover have "\<lfloor>log 2 \<bar>x\<bar>\<rfloor> = expo x"
    using expo_bounds[OF x] pos
    by (simp add: floor_log_eq_powr_iff powr_real_of_int' del: of_int_add)
  ultimately show ?thesis by simp
qed

lemma fl_eqI:
  assumes "2 powi e \<le> \<bar>x\<bar>" "\<bar>x\<bar> < 2 powi (e + 1)"
  shows "fl x = of_int (round_even (x / 2 powi (e - 52))) * 2 powi (e - 52)"
proof -
  have "0 < \<bar>x\<bar>" using assms(1) by (smt (verit) zero_less_power_int)
  then have "x \<noteq> 0" by auto
  then show ?thesis using expo_eqI[OF assms] by (simp add: fl_def Let_def)
qed

lemma round_even_ge_floor: "\<lfloor>y\<rfloor> \<le> round_even y"
  by (simp add: round_even_def Let_def)

lemma fl_pos:
  assumes "0 < x"
  shows "0 < fl x"
proof -
  have x: "x \<noteq> 0" using assms by simp
  let ?u = "(2::real) powi (expo x - 52)"
  have u: "0 < ?u" by simp
  have "2 powi expo x \<le> x" using expo_bounds[OF x] assms by simp
  then have "1 \<le> x / 2 powi expo x" by (simp add: field_simps)
  moreover have "x / 2 powi expo x \<le> x / ?u"
  proof -
    have "?u \<le> 2 powi expo x" by (intro power_int_increasing) simp_all
    then show ?thesis using assms by (intro divide_left_mono) simp_all
  qed
  ultimately have "1 \<le> x / ?u" by linarith
  then have "1 \<le> \<lfloor>x / ?u\<rfloor>" by simp
  then have "1 \<le> round_even (x / ?u)" using round_even_ge_floor[of "x / ?u"] by linarith
  then have "0 < real_of_int (round_even (x / ?u))" by simp
  then show ?thesis using x u by (simp add: fl_def Let_def)
qed

lemma fl_exact_examples: "fl 1 = 1" "fl 2 = 2" "fl 4 = 4"
  by (simp_all add: fl_eqI[of 0 1] fl_eqI[of 1 2] fl_eqI[of 2 4] round_even_def)

lemma fl_tenth: "fl (1 / 10) = 3602879701896397 / 36028797018963968"
  by (simp add: fl_eqI[of "-4"] round_even_def Let_def)

lemma fl_three_tenths:
  "fl (3 * (3602879701896397 / 36028797018963968)) = 1351079888211149 / 4503599627370496"
  by (simp add: fl_eqI[of "-2"] round_even_def Let_def)

section \<open>Properties of the wake accumulation loops\<close>

lemma py_int_floor: "0 \<le> x \<Longrightarrow> py_int x = \<lfloor>x\<rfloor>"
  by (simp add: py_int_def)

lemma for_loop_append:
  "for_loop body (xs @ ys) st =
     (case for_loop body xs st of Inl e \<Rightarrow> Inl e | Inr st' \<Rightarrow> for_loop body ys st')"
  by (induction xs arbitrary: st) (auto split: sum.splits)

lemma for_loop_upt_Suc:
  "for_loop body [0..<Suc m] st =
     (case for_loop body [0..<m] st of Inl e \<Rightarrow> Inl e | Inr st' \<Rightarrow> body m st')"
  by (simp add: for_loop_append split: sum.splits)

lemma np_index2_in_range:
  assumes "k < length A" "length (A ! k) = m" "- int m \<le> i" "i < int m"
  shows "np_index2 A (int k) i = Inr (A ! k ! nat (if i < 0 then int m + i else i))"
  using assms by (auto simp: np_index2_def np_index_def Let_def)

lemma k_loop_sum_aux:
  assumes dt: "0 < loc_dt L"
    and shape: "length (loc_Ezi L) = loc_nt L" "\<forall>k < loc_nt L. length (loc_Ezi L ! k) = loc_nt L"
    and rng: "\<forall>k < loc_nt L. 0 < ts_kn L k n \<longrightarrow> \<lfloor>ts_kn L k n / loc_dt L\<rfloor> \<le> int (loc_nt L)"
    and m: "m \<le> loc_nt L"
  shows "for_loop (k_body L n) [0..<m] w =
     Inr (w + (\<Sum>k<m. if 0 < ts_kn L k n
                 then loc_Ezi L ! k ! nat (let i = \<lfloor>ts_kn L k n / loc_dt L\<rfloor> - 1 in if i < 0 then int (loc_nt L) + i else i) * loc_dzi L else 0))"
  using m
proof (induction m)
  case 0
  then show ?case by simp
next
  case (Suc m)
  then have km: "m < loc_nt L" by simp
  show ?case
  proof (cases "0 < ts_kn L m n")
    case False
    then show ?thesis using Suc by (simp add: for_loop_upt_Suc k_body_def del: upt_Suc)
  next
    case True
    then have q: "0 \<le> ts_kn L m n / loc_dt L" using dt by simp
    then have fl: "0 \<le> \<lfloor>ts_kn L m n / loc_dt L\<rfloor>" by (rule iffD2[OF zero_le_floor])
    have it: "it_kn L m n = \<lfloor>ts_kn L m n / loc_dt L\<rfloor> - 1"
      by (simp add: it_kn_def py_int_floor q)
    have up: "\<lfloor>ts_kn L m n / loc_dt L\<rfloor> \<le> int (loc_nt L)" using rng km True by blast
    have "np_index2 (loc_Ezi L) (int m) (it_kn L m n) =
       Inr (loc_Ezi L ! m ! nat (if it_kn L m n < 0 then int (loc_nt L) + it_kn L m n else it_kn L m n))"
    proof (rule np_index2_in_range)
      show "m < length (loc_Ezi L)" using km shape by simp
      show "length (loc_Ezi L ! m) = loc_nt L" using km shape by simp
      show "- int (loc_nt L) \<le> it_kn L m n" using fl it km by linarith
      show "it_kn L m n < int (loc_nt L)" using up it by linarith
    qed
    then show ?thesis using Suc True it dt
      by (simp add: for_loop_upt_Suc k_body_def Let_def del: upt_Suc)
  qed
qed


lemma s_loop_aux:
  assumes k: "\<And>n w. n < m0 \<Longrightarrow> k_loop L n w = Inr (w + S n)"
    and m: "m \<le> length WP" "m \<le> m0"
  shows "for_loop (s_body L) [0..<m] WP = Inr (map (\<lambda>n. WP ! n + S n) [0..<m] @ drop m WP)"
  using m
proof (induction m)
  case 0
  then show ?case by simp
next
  case (Suc m)
  let ?pre = "map (\<lambda>n. WP ! n + S n) [0..<m]"
  have len: "length ?pre = m" by simp
  have rd: "(?pre @ drop m WP) ! m = WP ! m"
    using Suc.prems by (simp add: nth_append)
  have dr: "drop m WP = WP ! m # drop (Suc m) WP"
    using Suc.prems by (simp add: Cons_nth_drop_Suc)
  have upd: "(?pre @ drop m WP)[m := v] = ?pre @ v # drop (Suc m) WP" for v
    by (simp add: list_update_append dr)
  have "for_loop (s_body L) [0..<Suc m] WP = s_body L m (?pre @ drop m WP)"
    using Suc by (simp add: for_loop_upt_Suc del: upt_Suc)
  also have "\<dots> = Inr ((?pre @ drop m WP)[m := WP ! m + S m])"
    using k[of m "WP ! m"] Suc.prems by (simp add: s_body_def rd)
  also have "\<dots> = Inr (map (\<lambda>n. WP ! n + S n) [0..<Suc m] @ drop (Suc m) WP)"
    by (simp add: upd)
  finally show ?case .
qed

text \<open>
  Claim C1. In the accumulation loops of \<open>calc_long_WP\<close> (lines 249 to 262), with a
  positive time step and every time index inside the buffer, the retarded time of the pair
  \<open>(k, n)\<close> is \<open>(zi[k]+s[n])/c - zmin/c - t[0] + t_inj\<close>, and the loops add to \<open>WP[n]\<close>
  exactly the terms \<open>Ezi[k, it]*dzi\<close> of the pairs with \<open>ts[k,n] > 0\<close> (a pair with
  \<open>ts[k,n] = 0\<close> adds nothing), where \<open>it = floor(ts[k,n]/dt) - 1\<close> is read as a Python
  index.
\<close>

theorem s_loop_causality_gate:
  assumes dt: "0 < loc_dt L"
    and shape: "length (loc_Ezi L) = loc_nt L"
               "\<forall>k < loc_nt L. length (loc_Ezi L ! k) = loc_nt L"
    and rng: "\<forall>n < length (loc_s L). \<forall>k < loc_nt L.
                0 < ts_kn L k n \<longrightarrow> \<lfloor>ts_kn L k n / loc_dt L\<rfloor> \<le> int (loc_nt L)"
    and len: "length WP = length (loc_s L)"
  shows "(\<forall>k n. ts_kn L k n =
            (loc_zi L ! k + loc_s L ! n) / c - loc_zmin L / c - loc_t0 L + loc_t_inj L) \<and>
         s_loop L WP =
           Inr (map (\<lambda>n. WP ! n +
                       (\<Sum>k<loc_nt L.
                          if 0 < ts_kn L k n
                          then loc_Ezi L ! k !
                                 nat (let i = \<lfloor>ts_kn L k n / loc_dt L\<rfloor> - 1
                                      in if i < 0 then int (loc_nt L) + i else i) * loc_dzi L
                          else 0))
                  [0..<length (loc_s L)])"
proof
  show "\<forall>k n. ts_kn L k n =
            (loc_zi L ! k + loc_s L ! n) / c - loc_zmin L / c - loc_t0 L + loc_t_inj L"
    by (simp add: ts_kn_def)
next
  let ?S = "\<lambda>n. (\<Sum>k<loc_nt L.
                          if 0 < ts_kn L k n
                          then loc_Ezi L ! k !
                                 nat (let i = \<lfloor>ts_kn L k n / loc_dt L\<rfloor> - 1
                                      in if i < 0 then int (loc_nt L) + i else i) * loc_dzi L
                          else 0)"
  have k: "k_loop L n w = Inr (w + ?S n)" if "n < length (loc_s L)" for n w
    unfolding k_loop_def
    by (rule k_loop_sum_aux[OF dt shape _ order_refl]) (use rng that in blast)
  have "for_loop (s_body L) [0..<length (loc_s L)] WP =
          Inr (map (\<lambda>n. WP ! n + ?S n) [0..<length (loc_s L)] @ drop (length (loc_s L)) WP)"
    by (rule s_loop_aux[where ?m0.0 = "length (loc_s L)"]) (use k len in auto)
  then show "s_loop L WP = Inr (map (\<lambda>n. WP ! n + ?S n) [0..<length (loc_s L)])"
    using len by (simp add: s_loop_def)
qed


theorem s_loop_causality_gate_witness:
  "0 < loc_dt \<lparr>loc_dt = 1, loc_t_inj = 0, loc_zmin = 0, loc_t0 = 0, loc_nt = 2,
                loc_zi = [0, c], loc_dzi = c, loc_Ezi = [[5, 7], [11, 13]], loc_s = [0]\<rparr> \<and>
   ts_kn \<lparr>loc_dt = 1, loc_t_inj = 0, loc_zmin = 0, loc_t0 = 0, loc_nt = 2,
                loc_zi = [0, c], loc_dzi = c, loc_Ezi = [[5, 7], [11, 13]], loc_s = [0]\<rparr> 0 0 = 0 \<and>
   ts_kn \<lparr>loc_dt = 1, loc_t_inj = 0, loc_zmin = 0, loc_t0 = 0, loc_nt = 2,
                loc_zi = [0, c], loc_dzi = c, loc_Ezi = [[5, 7], [11, 13]], loc_s = [0]\<rparr> 1 0 = 1 \<and>
   s_loop \<lparr>loc_dt = 1, loc_t_inj = 0, loc_zmin = 0, loc_t0 = 0, loc_nt = 2,
            loc_zi = [0, c], loc_dzi = c, loc_Ezi = [[5, 7], [11, 13]], loc_s = [0]\<rparr> [0]
     = Inr [11 * c]"
  using s_loop_causality_gate [of "\<lparr>loc_dt = 1, loc_t_inj = 0, loc_zmin = 0, loc_t0 = 0, loc_nt = 2,
            loc_zi = [0, c], loc_dzi = c, loc_Ezi = [[5, 7], [11, 13]], loc_s = [0]\<rparr>" "[0]"]
  by (simp add: ts_kn_def c_def numeral_2_eq_2 All_less_Suc lessThan_Suc)

text \<open>
  Claim C10. For a pair \<open>(k, n)\<close> whose retarded time lies strictly between \<open>0\<close> and
  \<open>dt\<close>, the time index \<open>it = int(ts[k,n]/dt) - 1\<close> is \<open>-1\<close>, the read \<open>Ezi[k, it]\<close>
  wraps around to the last column \<open>Ezi[k, nt-1]\<close>, and that sample is what the loop body
  adds to \<open>WP[n]\<close>: the index is outside \<open>[0, floor(ts/dt)]\<close>.
\<close>

theorem k_body_negative_index_wraps:
  assumes pos: "0 < ts_kn L k n" and small: "ts_kn L k n < loc_dt L"
    and k: "k < loc_nt L"
    and shape: "length (loc_Ezi L) = loc_nt L" "length (loc_Ezi L ! k) = loc_nt L"
  shows "it_kn L k n = - 1 \<and>
         np_index2 (loc_Ezi L) (int k) (it_kn L k n) = Inr (loc_Ezi L ! k ! (loc_nt L - 1)) \<and>
         k_body L n k w = Inr (w + loc_Ezi L ! k ! (loc_nt L - 1) * loc_dzi L)"
proof -
  have dt: "0 < loc_dt L" using pos small by linarith
  have q0: "0 \<le> ts_kn L k n / loc_dt L" and q1: "ts_kn L k n / loc_dt L < 1"
    using pos small dt by simp_all
  have "\<lfloor>ts_kn L k n / loc_dt L\<rfloor> = 0"
    using q0 q1 by (simp add: floor_eq_iff)
  then have it: "it_kn L k n = - 1"
    using q0 by (simp add: it_kn_def py_int_def)
  have rd: "np_index2 (loc_Ezi L) (int k) (- 1) = Inr (loc_Ezi L ! k ! (loc_nt L - 1))"
    using k shape by (simp add: np_index2_def np_index_def Let_def nat_diff_distrib')
  show ?thesis using it rd pos dt by (simp add: k_body_def)
qed

theorem k_body_negative_index_wraps_witness:
  "0 < ts_kn \<lparr>loc_dt = 1, loc_t_inj = 0, loc_zmin = 0, loc_t0 = 0, loc_nt = 2,
              loc_zi = [0, c / 2], loc_dzi = c / 2, loc_Ezi = [[5, 7], [11, 13]], loc_s = [0]\<rparr> 1 0 \<and>
   k_body \<lparr>loc_dt = 1, loc_t_inj = 0, loc_zmin = 0, loc_t0 = 0, loc_nt = 2,
            loc_zi = [0, c / 2], loc_dzi = c / 2, loc_Ezi = [[5, 7], [11, 13]], loc_s = [0]\<rparr> 0 1 0
     = Inr (13 * (c / 2))"
  using k_body_negative_index_wraps [of "\<lparr>loc_dt = 1, loc_t_inj = 0, loc_zmin = 0, loc_t0 = 0, loc_nt = 2,
            loc_zi = [0, c / 2], loc_dzi = c / 2, loc_Ezi = [[5, 7], [11, 13]], loc_s = [0]\<rparr>" 1 0 0]
  by (simp add: ts_kn_def c_def)

lemmas wake_eval =
  calc_long_WP_def calc_long_WP_over_def offsets9_def offset_body_def Ezi_body_def
  Ez_line_def np_index_def np_index2_def set_column_def interp_def s_loop_def s_body_def
  k_loop_def k_body_def ts_kn_def it_kn_def py_int_def linspace_def calc_s_def
  Wake_length_def py_max_def py_min_def Let_def upt_rec numeral_3_eq_3

text \<open>
  Claim C2 (fails on the code). With \<open>t = [0, 1, 2, 3]\<close>, \<open>z = [0, c]\<close> and
  \<open>t_inj = 2\<close> the wake length is \<open>c\<close>, \<open>ns_neg = 2\<close> and \<open>ns_pos = 1\<close>: both
  \<open>linspace\<close> segments contain the join value, so \<open>calc_long_WP\<close> returns
  \<open>s = [-2c, 0, 0]\<close>, which is not strictly increasing and has \<open>s[ns_neg-1] = 0\<close>.
\<close>

theorem calc_long_WP_s_repeats_zero:
  "calc_long_WP
     \<lparr>data_t = [0, 1, 2, 3], data_z = [0, c], data_init_time = 2, data_q = 1\<rparr>
     (replicate 4 (replicate 3 (replicate 3 [0, 0])))
   = Inr (replicate 3 (replicate 3 [0, 0, 0]), [- 2 * c, 0, 0]) \<and>
   py_int (2 / (2 - 1)) = 2 \<and>
   \<not> sorted_wrt (<) [- 2 * c, 0, 0] \<and> \<not> [- 2 * c, 0, 0] ! (2 - 1) < 0"
  by (simp add: wake_eval c_def eval_nat_numeral)

text \<open>
  Claim C3 (fails on the code). The accumulator \<open>WP\<close> is allocated once before the offset
  loops and never reset, so each offset starts from the normalised result of the one
  before. For a uniform unit field the offset \<open>(-1, 0)\<close> computed alone gives \<open>[2c]\<close> in
  \<open>WP_3d[0,1,:]\<close>; the full run, which visits \<open>(-1, -1)\<close> first, gives \<open>[4c]\<close> there.
\<close>

theorem calc_long_WP_offsets_not_independent:
  "calc_long_WP_over [(- 1, 0)]
     \<lparr>data_t = [0, 1, 2], data_z = [0, 2 * c], data_init_time = 1, data_q = 1 / 10 ^ 12\<rparr>
     (replicate 3 (replicate 3 (replicate 3 [1, 1])))
   = Inr ([[[0], [2 * c], [0]], [[0], [0], [0]], [[0], [0], [0]]], [- c]) \<and>
   calc_long_WP
     \<lparr>data_t = [0, 1, 2], data_z = [0, 2 * c], data_init_time = 1, data_q = 1 / 10 ^ 12\<rparr>
     (replicate 3 (replicate 3 (replicate 3 [1, 1])))
   = Inr ([[[2 * c], [4 * c], [6 * c]], [[8 * c], [10 * c], [12 * c]],
           [[14 * c], [16 * c], [18 * c]]], [- c])"
  by (simp add: wake_eval c_def)

section \<open>Properties of the transverse wake potential\<close>

lemma np_assign3_shape:
  assumes "shape3 A m" "i < 3" "j < 3" "n < m"
  shows "\<exists>A'. np_assign3 A i j n v = Inr A' \<and> shape3 A' m \<and>
           (\<forall>i'<3. \<forall>j'<3. A' ! i' ! j' ! n = (if i' = i \<and> j' = j then v else A ! i' ! j' ! n))"
  using assms
  by (auto simp: np_assign3_def shape3_def nth_list_update)

lemma np_slice3_const:
  assumes "length W = 3" "\<forall>i<3. length (W ! i) = 3" "\<forall>i<3. \<forall>j<3. W ! i ! j = w"
    "0 \<le> i" "i < 3" "0 \<le> j" "j < 3"
  shows "np_slice3 W i j = Inr w"
  using assms by (auto simp: np_slice3_def np_index_def)

lemma int_WP_loop:
  assumes W: "length W = 3" "\<forall>i<3. length (W ! i) = 3" "\<forall>i<3. \<forall>j<3. W ! i ! j = w"
    and n: "n < m"
    and offs: "\<forall>ij \<in> set offs. fst ij \<in> {-1, 0, 1} \<and> snd ij \<in> {-1, 0, 1}"
    and A: "shape3 A m"
    and dn: "\<forall>ij \<in> S. A ! nat (1 + fst ij) ! nat (1 + snd ij) ! n = sum_list (take n w) * ds"
    and S: "\<forall>ij \<in> S. fst ij \<in> {-1, 0, 1} \<and> snd ij \<in> {-1, 0, 1}"
  shows "\<exists>A'. for_loop (int_WP_body W ds n) offs A = Inr A' \<and> shape3 A' m \<and>
           (\<forall>ij \<in> S \<union> set offs. A' ! nat (1 + fst ij) ! nat (1 + snd ij) ! n = sum_list (take n w) * ds)"
  using offs A dn S
proof (induction offs arbitrary: A S)
  case Nil
  then show ?case by simp
next
  case (Cons ij offs)
  let ?v = "sum_list (take n w) * ds"
  let ?i = "nat (1 + fst ij)" and ?j = "nat (1 + snd ij)"
  have ij: "fst ij \<in> {-1, 0, 1}" "snd ij \<in> {-1, 0, 1}" using Cons.prems(1) by auto
  then have r: "0 \<le> 1 + fst ij" "1 + fst ij < 3" "0 \<le> 1 + snd ij" "1 + snd ij < 3" by auto
  then have rn: "?i < 3" "?j < 3" by auto
  have sl: "np_slice3 W (1 + fst ij) (1 + snd ij) = Inr w"
    using np_slice3_const[OF W r] .
  obtain A1 where A1: "np_assign3 A ?i ?j n ?v = Inr A1" "shape3 A1 m"
     "\<forall>i'<3. \<forall>j'<3. A1 ! i' ! j' ! n = (if i' = ?i \<and> j' = ?j then ?v else A ! i' ! j' ! n)"
    using np_assign3_shape[OF Cons.prems(2) rn n, of ?v] by blast
  have body: "int_WP_body W ds n ij A = Inr A1"
    by (simp add: int_WP_body_def sl A1(1))
  have done1: "\<forall>p \<in> insert ij S. A1 ! nat (1 + fst p) ! nat (1 + snd p) ! n = ?v"
  proof
    fix p assume p: "p \<in> insert ij S"
    then have pr: "fst p \<in> {-1, 0, 1} \<and> snd p \<in> {-1, 0, 1}" using ij Cons.prems(4) by auto
    then have "nat (1 + fst p) < 3" "nat (1 + snd p) < 3" by auto
    then have "A1 ! nat (1 + fst p) ! nat (1 + snd p) ! n =
       (if nat (1 + fst p) = ?i \<and> nat (1 + snd p) = ?j then ?v else A ! nat (1 + fst p) ! nat (1 + snd p) ! n)"
      using A1(3) by blast
    moreover have "A ! nat (1 + fst p) ! nat (1 + snd p) ! n = ?v" if "\<not> (nat (1 + fst p) = ?i \<and> nat (1 + snd p) = ?j)"
    proof -
      have "p \<noteq> ij" using that by auto
      then have "p \<in> S" using p by simp
      then show ?thesis using Cons.prems(3) by blast
    qed
    ultimately show "A1 ! nat (1 + fst p) ! nat (1 + snd p) ! n = ?v" by auto
  qed
  have S1: "\<forall>p \<in> insert ij S. fst p \<in> {-1, 0, 1} \<and> snd p \<in> {-1, 0, 1}"
    using ij Cons.prems(4) by auto
  have offs': "\<forall>p \<in> set offs. fst p \<in> {-1, 0, 1} \<and> snd p \<in> {-1, 0, 1}"
    using Cons.prems(1) by simp
  obtain A' where A': "for_loop (int_WP_body W ds n) offs A1 = Inr A'" "shape3 A' m"
     "\<forall>p \<in> insert ij S \<union> set offs. A' ! nat (1 + fst p) ! nat (1 + snd p) ! n = ?v"
    using Cons.IH[OF offs' A1(2) done1 S1] by blast
  show ?case
    using A' body by auto
qed


lemma np_index3_shape:
  assumes "shape3 A m" "i < 3" "j < 3" "n < m"
  shows "np_index3 A (int i) (int j) (int n) = Inr (A ! i ! j ! n)"
  using assms by (auto simp: np_index3_def np_slice3_def np_index_def shape3_def)

lemma trans_body_const:
  assumes W: "length W = 3" "\<forall>i<3. length (W ! i) = 3" "\<forall>i<3. \<forall>j<3. W ! i ! j = w"
    and n: "n < m" and A: "shape3 (st_int_WP st) m"
    and dx: "dx \<noteq> 0" and dy: "dy \<noteq> 0"
  shows "\<exists>A'. shape3 A' m \<and>
           trans_body dx dy W ds n st =
             Inr \<lparr>st_int_WP = A', st_WPx = (st_WPx st)[n := 0], st_WPy = (st_WPy st)[n := 0]\<rparr>"
proof -
  let ?v = "sum_list (take n w) * ds"
  have offs: "\<forall>ij \<in> set offsets9. fst ij \<in> {-1, 0, 1} \<and> snd ij \<in> {-1, 0, 1}"
    by (simp add: offsets9_def)
  obtain A' where A': "for_loop (int_WP_body W ds n) offsets9 (st_int_WP st) = Inr A'"
      "shape3 A' m"
      "\<forall>ij \<in> {} \<union> set offsets9. A' ! nat (1 + fst ij) ! nat (1 + snd ij) ! n = ?v"
    using int_WP_loop[OF W n offs A, of "{}" ds] by auto
  have v: "A' ! 2 ! 1 ! n = ?v" "A' ! 0 ! 1 ! n = ?v" "A' ! 1 ! 2 ! n = ?v" "A' ! 1 ! 0 ! n = ?v"
    using A'(3)[rule_format, of "(1, 0)"] A'(3)[rule_format, of "(-1, 0)"]
      A'(3)[rule_format, of "(0, 1)"] A'(3)[rule_format, of "(0, -1)"]
    by (simp_all add: offsets9_def numeral_2_eq_2)
  have rd: "np_index3 A' 2 1 (int n) = Inr ?v" "np_index3 A' 0 1 (int n) = Inr ?v"
      "np_index3 A' 1 2 (int n) = Inr ?v" "np_index3 A' 1 0 (int n) = Inr ?v"
    using np_index3_shape[OF A'(2) _ _ n, of 2 1] np_index3_shape[OF A'(2) _ _ n, of 0 1]
      np_index3_shape[OF A'(2) _ _ n, of 1 2] np_index3_shape[OF A'(2) _ _ n, of 1 0] v
    by simp_all
  have "trans_body dx dy W ds n st =
      Inr \<lparr>st_int_WP = A', st_WPx = (st_WPx st)[n := 0], st_WPy = (st_WPy st)[n := 0]\<rparr>"
    using dx dy by (simp add: trans_body_def A'(1) rd)
  then show ?thesis using A'(2) by blast
qed

lemma trans_loop_const:
  assumes W: "length W = 3" "\<forall>i<3. length (W ! i) = 3" "\<forall>i<3. \<forall>j<3. W ! i ! j = w"
    and A: "shape3 A m" and dx: "dx \<noteq> 0" and dy: "dy \<noteq> 0" and k: "k \<le> m"
  shows "\<exists>A'. shape3 A' m \<and>
           for_loop (trans_body dx dy W ds) [0..<k]
             \<lparr>st_int_WP = A, st_WPx = replicate N 0, st_WPy = replicate N 0\<rparr> =
             Inr \<lparr>st_int_WP = A', st_WPx = replicate N 0, st_WPy = replicate N 0\<rparr>"
  using k
proof (induction k)
  case 0
  then show ?case using A by simp
next
  case (Suc k)
  then obtain A1 where A1: "shape3 A1 m"
    "for_loop (trans_body dx dy W ds) [0..<k]
             \<lparr>st_int_WP = A, st_WPx = replicate N 0, st_WPy = replicate N 0\<rparr> =
             Inr \<lparr>st_int_WP = A1, st_WPx = replicate N 0, st_WPy = replicate N 0\<rparr>"
    by auto
  have z: "(replicate N (0::real))[k := 0] = replicate N 0"
    by (cases "k < N") (auto simp: list_eq_iff_nth_eq nth_list_update)
  obtain A' where A': "shape3 A' m"
    "trans_body dx dy W ds k \<lparr>st_int_WP = A1, st_WPx = replicate N 0, st_WPy = replicate N 0\<rparr> =
       Inr \<lparr>st_int_WP = A', st_WPx = replicate N 0, st_WPy = replicate N 0\<rparr>"
    using trans_body_const[OF W _ _ dx dy, of k m
        "\<lparr>st_int_WP = A1, st_WPx = replicate N 0, st_WPy = replicate N 0\<rparr>" ds] A1(1) Suc.prems
    by (auto simp: z)
  show ?case
    using A1(2) A' by (auto simp add: for_loop_upt_Suc simp del: upt_Suc)
qed

text \<open>
  Claim C4. When the nine transverse slices of \<open>WP_3d\<close> are one and the same sequence,
  \<open>calc_trans_WP\<close> (with at least three samples in \<open>s\<close> and non-zero spacings \<open>dx\<close>,
  \<open>dy\<close>) returns \<open>WPx\<close> and \<open>WPy\<close> that are zero at every index.
\<close>

theorem calc_trans_WP_identical_slices:
  assumes len: "3 \<le> length s"
    and dx: "dx \<noteq> 0" and dy: "dy \<noteq> 0"
    and W: "length WP_3d = 3" "\<forall>i<3. length (WP_3d ! i) = 3"
           "\<forall>i<3. \<forall>j<3. WP_3d ! i ! j = w"
    and w: "length s \<le> length w"
  shows "calc_trans_WP dx dy s WP_3d = Inr (replicate (length s) 0, replicate (length s) 0)"
proof -
  have sh: "shape3 (map (map (map (\<lambda>_. 0))) WP_3d) (length w)"
    using W by (simp add: shape3_def)
  have z: "map (\<lambda>_. 0::real) s = replicate (length s) 0"
    by (simp add: map_replicate_const)
  obtain A' where "for_loop (trans_body dx dy WP_3d (s ! 2 - s ! 1)) [0..<length s]
       \<lparr>st_int_WP = map (map (map (\<lambda>_. 0))) WP_3d,
        st_WPx = replicate (length s) 0, st_WPy = replicate (length s) 0\<rparr> =
       Inr \<lparr>st_int_WP = A', st_WPx = replicate (length s) 0, st_WPy = replicate (length s) 0\<rparr>"
    using trans_loop_const[OF W sh dx dy w] by blast
  then show ?thesis using len by (simp add: calc_trans_WP_def z Let_def)
qed

theorem calc_trans_WP_identical_slices_witness:
  "3 \<le> length [0, 1, 2 :: real] \<and>
   calc_trans_WP 1 1 [0, 1, 2] [[[1, 2, 3], [1, 2, 3], [1, 2, 3]],
     [[1, 2, 3], [1, 2, 3], [1, 2, 3]], [[1, 2, 3], [1, 2, 3], [1, 2, 3]]]
     = Inr ([0, 0, 0], [0, 0, 0])"
  using calc_trans_WP_identical_slices [of "[0, 1, 2]" 1 1 "[[[1, 2, 3], [1, 2, 3], [1, 2, 3]],
     [[1, 2, 3], [1, 2, 3], [1, 2, 3]], [[1, 2, 3], [1, 2, 3], [1, 2, 3]]]" "[1, 2, 3]"]
  by (simp add: numeral_3_eq_3 All_less_Suc)

section \<open>Properties of the spectral transforms\<close>

text \<open>
  Claim C5 (fails on the code). \<open>FFT\<close> places the \<open>N\<close> samples of \<open>Xt\<close> on
  \<open>linspace(0, T, N)\<close>, whose step is \<open>T/(N-1)\<close>, and \<open>DFT\<close> on \<open>arange(0, T, dt)\<close>,
  whose step is \<open>dt\<close>. For \<open>Xt = [0, 1]\<close>, \<open>dt = 1\<close> and \<open>fmax = 1\<close> the two resampled
  signals differ.
\<close>

theorem FFT_DFT_resample_differ:
  "FFT_resample [0, 1] 1 1 = Inr [0, 1 / 4, 1 / 2, 3 / 4] \<and>
   DFT_resample [0, 1] 1 1 = Inr [0, 1 / 2, 1, 1]"
  by (simp add: FFT_resample_def DFT_resample_def linspace_def arange_def interp_def
      Let_def upt_rec fl_exact_examples)

text \<open>
  Claim C8. With a resampled signal \<open>Xs\<close> and a non-negative product \<open>r*Ns\<close>, \<open>FFT\<close>
  with zero padding transforms \<open>Xs\<close> with \<open>pad = floor(r*Ns)\<close> zeros before it and \<open>pad\<close>
  zeros after it; with the flag false it transforms \<open>Xs\<close> itself.
\<close>

theorem FFT_zero_padding:
  assumes fm: "default_fmax dt fmax = Inr fm"
    and Xs: "FFT_resample Xt dt fm = Inr Xs"
    and r: "0 \<le> r * Ns_of Xt dt fm"
  shows "FFT Xt dt fmax r True =
           FFT_spectrum (Ns_of Xt dt fm) (dts_of fm)
             (replicate (nat \<lfloor>r * Ns_of Xt dt fm\<rfloor>) 0 @ Xs @
              replicate (nat \<lfloor>r * Ns_of Xt dt fm\<rfloor>) 0) \<and>
         FFT Xt dt fmax r False = FFT_spectrum (Ns_of Xt dt fm) (dts_of fm) Xs"
proof -
  have "0 \<le> \<lfloor>r * Ns_of Xt dt fm\<rfloor>" using r by (rule iffD2[OF zero_le_floor])
  then have "\<not> py_int (r * Ns_of Xt dt fm) < 0" "py_int (r * Ns_of Xt dt fm) = \<lfloor>r * Ns_of Xt dt fm\<rfloor>"
    using r by (simp_all add: py_int_floor)
  then show ?thesis
    by (simp add: FFT_def fm Xs FFT_pad_def Let_def)
qed

theorem FFT_zero_padding_witness:
  "default_fmax 1 (Some (1 / 4)) = Inr (1 / 4) \<and>
   FFT_resample [3, 5] 1 (1 / 4) = Inr [3] \<and>
   0 \<le> 2 * Ns_of [3, 5] 1 (1 / 4) \<and>
   Ns_of [3, 5] 1 (1 / 4) = 1 \<and>
   FFT [3, 5] 1 (Some (1 / 4)) 2 True = FFT_spectrum 1 2 [0, 0, 3, 0, 0] \<and>
   FFT [3, 5] 1 (Some (1 / 4)) 2 False = FFT_spectrum 1 2 [3]"
proof -
  have a: "default_fmax 1 (Some (1 / 4)) = Inr (1 / 4)" by (simp add: default_fmax_def)
  have b: "FFT_resample [3, 5] 1 (1 / 4) = Inr [3]"
    by (simp add: FFT_resample_def linspace_def arange_def interp_def Let_def upt_rec
        fl_exact_examples)
  have n: "Ns_of [3, 5] 1 (1 / 4) = 1" by (simp add: Ns_of_def dts_of_def)
  have c: "0 \<le> 2 * Ns_of [3, 5] 1 (1 / 4)" by (simp add: n)
  show ?thesis
    using FFT_zero_padding [OF a b c] a b c n by (simp add: dts_of_def eval_nat_numeral)
qed

lemma mask_select_pred:
  assumes "mask_select xs (map P ys) = Inr zs"
  shows "zs = map fst (filter (\<lambda>p. P (snd p)) (zip xs ys))"
proof -
  have "map fst (filter snd (zip xs (map P ys))) = map fst (filter (\<lambda>p. P (snd p)) (zip xs ys))"
    by (induction xs ys rule: list_induct2') auto
  then show ?thesis using assms by (auto simp: mask_select_def split: if_splits)
qed

lemma length_fftfreq: "0 < n \<Longrightarrow> length (fftfreq n d) = n"
  by (simp add: fftfreq_def)

lemma length_np_fft: "np_fft a = Inr A \<Longrightarrow> length A = length a \<and> a \<noteq> []"
  by (auto simp: np_fft_def Let_def split: if_splits)

lemma FFT_spectrum_InrD:
  assumes "FFT_spectrum Ns dts Xs = Inr (Xf, f)"
  shows "\<exists>Xfft. np_fft (map complex_of_real Xs) = Inr Xfft \<and>
     (\<Sum>X\<leftarrow>Xfft. (cmod X)^2) / real (length Xfft) \<noteq> 0 \<and>
     Xf = map (\<lambda>X. complex_of_real (sqrt ((\<Sum>x\<leftarrow>Xs. x^2) / ((\<Sum>X\<leftarrow>Xfft. (cmod X)^2) / real (length Xfft)))) *
                 (complex_of_real (2 / Ns) * X))
            (map fst (filter (\<lambda>p. 0 \<le> snd p) (zip Xfft (fftfreq (length Xfft) dts)))) \<and>
     f = map fst (filter (\<lambda>p. 0 \<le> snd p) (zip (fftfreq (length Xfft) dts) (fftfreq (length Xfft) dts)))"
proof -
  obtain Xfft where Xfft: "np_fft (map complex_of_real Xs) = Inr Xfft"
    using assms by (cases "np_fft (map complex_of_real Xs)") (simp_all add: FFT_spectrum_def)
  let ?ffft = "fftfreq (length Xfft) dts"
  let ?mask = "map (\<lambda>v. 0 \<le> v) ?ffft"
  let ?K = "sqrt ((\<Sum>x\<leftarrow>Xs. x^2) / ((\<Sum>X\<leftarrow>Xfft. (cmod X)^2) / real (length Xfft)))"
  have len: "length ?ffft = length Xfft"
    using length_np_fft[OF Xfft] by (simp add: length_fftfreq)
  have s1: "mask_select Xfft ?mask = Inr (map fst (filter snd (zip Xfft ?mask)))"
    and s2: "mask_select ?ffft ?mask = Inr (map fst (filter snd (zip ?ffft ?mask)))"
    using len by (simp_all add: mask_select_def)
  have p1: "map fst (filter snd (zip Xfft ?mask)) = map fst (filter (\<lambda>p. 0 \<le> snd p) (zip Xfft ?ffft))"
    using mask_select_pred[OF s1] .
  have p2: "map fst (filter snd (zip ?ffft ?mask)) = map fst (filter (\<lambda>p. 0 \<le> snd p) (zip ?ffft ?ffft))"
    using mask_select_pred[OF s2] .
  have eq: "FFT_spectrum Ns dts Xs =
      (if (\<Sum>X\<leftarrow>Xfft. (cmod X)^2) / real (length Xfft) = 0 then Inl NonFinite
       else Inr (map (\<lambda>X. complex_of_real ?K * X)
                   (map (\<lambda>X. 2 * X / complex_of_real Ns)
                      (map fst (filter (\<lambda>p. 0 \<le> snd p) (zip Xfft ?ffft)))),
                 map fst (filter (\<lambda>p. 0 \<le> snd p) (zip ?ffft ?ffft))))"
    by (simp only: FFT_spectrum_def Xfft Let_def sum.case s1 s2 p1 p2 len power2_abs)
  have nz: "(\<Sum>X\<leftarrow>Xfft. (cmod X)^2) / real (length Xfft) \<noteq> 0"
    using assms unfolding eq by (metis Inl_Inr_False)
  have Xf: "Xf = map (\<lambda>X. complex_of_real ?K * X)
                   (map (\<lambda>X. 2 * X / complex_of_real Ns)
                      (map fst (filter (\<lambda>p. 0 \<le> snd p) (zip Xfft ?ffft))))"
    and f: "f = map fst (filter (\<lambda>p. 0 \<le> snd p) (zip ?ffft ?ffft))"
    using assms nz unfolding eq by simp_all
  have sc: "map (\<lambda>X. 2 * X / complex_of_real Ns) ys = map (\<lambda>X. complex_of_real (2 / Ns) * X) ys" for ys
    by (rule map_cong) simp_all
  have Xf': "Xf = map (\<lambda>X. complex_of_real ?K * (complex_of_real (2 / Ns) * X))
                 (map fst (filter (\<lambda>p. 0 \<le> snd p) (zip Xfft ?ffft)))"
    unfolding Xf sc by (simp only: map_map comp_def)
  show ?thesis using Xfft nz Xf' f by blast
qed

text \<open>
  Claim C7. Whenever \<open>FFT\<close> returns amplitudes \<open>Xf\<close>, they are the transform values at
  the non-negative frequencies, each scaled by \<open>2/Ns\<close> with \<open>Ns = N*dt/dts\<close> and then
  multiplied by \<open>K = sqrt(Et/Ef)\<close>, where \<open>Et\<close> is the energy of the (possibly padded)
  resampled signal and \<open>Ef\<close> the energy of the full spectrum divided by its number of bins.
\<close>

theorem FFT_amplitude_scaling:
  assumes "FFT Xt dt fmax r flag = Inr (Xf, f)"
  shows "\<exists>fm Xs Xs' Xfft.
     default_fmax dt fmax = Inr fm \<and> FFT_resample Xt dt fm = Inr Xs \<and>
     FFT_pad flag r (Ns_of Xt dt fm) Xs = Inr Xs' \<and>
     np_fft (map complex_of_real Xs') = Inr Xfft \<and>
     (let Ns = real (length Xt) * dt / dts_of fm;
          Et = (\<Sum>x\<leftarrow>Xs'. x ^ 2);
          Ef = (\<Sum>X\<leftarrow>Xfft. (cmod X) ^ 2) / real (length Xfft);
          K = sqrt (Et / Ef);
          kept = map fst (filter (\<lambda>p. 0 \<le> snd p)
                   (zip Xfft (fftfreq (length Xfft) (dts_of fm))))
      in Ef \<noteq> 0 \<and>
         Xf = map (\<lambda>X. complex_of_real K * (complex_of_real (2 / Ns) * X)) kept)"
proof -
  obtain fm where fm: "default_fmax dt fmax = Inr fm"
    using assms by (auto simp: FFT_def split: sum.splits)
  obtain Xs where Xs: "FFT_resample Xt dt fm = Inr Xs"
    using assms fm by (auto simp: FFT_def split: sum.splits)
  obtain Xs' where Xs': "FFT_pad flag r (Ns_of Xt dt fm) Xs = Inr Xs'"
    using assms fm Xs by (auto simp: FFT_def split: sum.splits)
  have sp: "FFT_spectrum (Ns_of Xt dt fm) (dts_of fm) Xs' = Inr (Xf, f)"
    using assms fm Xs Xs' by (simp add: FFT_def)
  have Ns: "Ns_of Xt dt fm = real (length Xt) * dt / dts_of fm"
    by (simp add: Ns_of_def)
  from FFT_spectrum_InrD[OF sp] obtain Xfft where X:
    "np_fft (map complex_of_real Xs') = Inr Xfft"
    "(\<Sum>X\<leftarrow>Xfft. (cmod X)^2) / real (length Xfft) \<noteq> 0"
    "Xf = map (\<lambda>X. complex_of_real (sqrt ((\<Sum>x\<leftarrow>Xs'. x^2) / ((\<Sum>X\<leftarrow>Xfft. (cmod X)^2) / real (length Xfft)))) *
                 (complex_of_real (2 / Ns_of Xt dt fm) * X))
            (map fst (filter (\<lambda>p. 0 \<le> snd p) (zip Xfft (fftfreq (length Xfft) (dts_of fm)))))"
    by blast
  note X3 = X(3)[unfolded Ns]
  show ?thesis
    unfolding Let_def using fm Xs Xs' X(1) X(2) X3 by blast
qed


lemma np_fft_single: "np_fft [x] = Inr [x]"
  by (simp add: np_fft_def)

lemma FFT_35: "FFT [3, 5] 1 (Some (1 / 4)) 2 False = Inr ([6], [0])"
proof -
  have a: "default_fmax 1 (Some (1 / 4)) = Inr (1 / 4)" by (simp add: default_fmax_def)
  have b: "FFT_resample [3, 5] 1 (1 / 4) = Inr [3]"
    by (simp add: FFT_resample_def linspace_def arange_def interp_def Let_def upt_rec
        fl_exact_examples)
  have n: "Ns_of [3, 5] 1 (1 / 4) = 1" "dts_of (1 / 4) = 2" by (simp_all add: Ns_of_def dts_of_def)
  have s: "FFT_spectrum 1 2 [3] = Inr ([6], [0])"
    by (simp add: FFT_spectrum_def np_fft_single fftfreq_def mask_select_def Let_def)
  show ?thesis by (simp add: FFT_def a b n FFT_pad_def s)
qed


theorem FFT_amplitude_scaling_witness:
  "FFT [3, 5] 1 (Some (1 / 4)) 2 False = Inr ([6], [0]) \<and>
   (\<exists>fm Xs Xs' Xfft.
     default_fmax 1 (Some (1 / 4)) = Inr fm \<and> FFT_resample [3, 5] 1 fm = Inr Xs \<and>
     FFT_pad False 2 (Ns_of [3, 5] 1 fm) Xs = Inr Xs' \<and>
     np_fft (map complex_of_real Xs') = Inr Xfft \<and>
     (let Ns = real (length [3, 5 :: real]) * 1 / dts_of fm;
          Et = (\<Sum>x\<leftarrow>Xs'. x ^ 2);
          Ef = (\<Sum>X\<leftarrow>Xfft. (cmod X) ^ 2) / real (length Xfft);
          K = sqrt (Et / Ef);
          kept = map fst (filter (\<lambda>p. 0 \<le> snd p)
                   (zip Xfft (fftfreq (length Xfft) (dts_of fm))))
      in Ef \<noteq> 0 \<and>
         [6] = map (\<lambda>X. complex_of_real K * (complex_of_real (2 / Ns) * X)) kept))"
  using FFT_amplitude_scaling [OF FFT_35] FFT_35 by simp

lemma mask_select_map:
  "length xs = n \<Longrightarrow> mask_select xs (map P [0..<n]) = Inr (map (nth xs) (filter P [0..<n]))"
proof -
  assume len: "length xs = n"
  have "map fst (filter snd (zip xs (map P [0..<length xs]))) = map (nth xs) (filter P [0..<length xs])"
  proof (induction xs rule: rev_induct)
    case Nil
    then show ?case by simp
  next
    case (snoc x xs)
    have "zip (xs @ [x]) (map P [0..<length (xs @ [x])]) =
          zip xs (map P [0..<length xs]) @ [(x, P (length xs))]"
      by simp
    moreover have "map ((!) (xs @ [x])) (filter P [0..<length xs]) = map ((!) xs) (filter P [0..<length xs])"
      by (rule map_cong) (auto simp: nth_append)
    ultimately show ?case using snoc by simp
  qed
  then show ?thesis using len by (simp add: mask_select_def)
qed

lemma map_upt_update:
  "(map P [0..<n])[k := v] = map (\<lambda>i. if i = k then v else P i) [0..<n]"
  by (rule nth_equalityI) (auto simp: nth_list_update)

lemma filter_even_upt:
  "filter (\<lambda>i. i mod 2 = 0) [0..<n] = map (\<lambda>m. 2 * m) [0..<(n + 1) div 2]"
proof (induction n)
  case 0
  then show ?case by simp
next
  case (Suc n)
  show ?case
  proof (cases "even n")
    case True
    then have "(Suc n + 1) div 2 = Suc ((n + 1) div 2)" "2 * ((n + 1) div 2) = n"
      by (auto elim!: evenE)
    then show ?thesis using Suc True by (simp add: even_iff_mod_2_eq_zero)
  next
    case False
    then have "(Suc n + 1) div 2 = (n + 1) div 2"
      by (auto elim!: oddE)
    then show ?thesis using Suc False by (simp add: even_iff_mod_2_eq_zero)
  qed
qed

lemma filter_odd_upt:
  "filter (\<lambda>i. \<not> i mod 2 = 0) [0..<n] = map (\<lambda>m. 2 * m + 1) [0..<n div 2]"
proof (induction n)
  case 0
  then show ?case by simp
next
  case (Suc n)
  show ?case
  proof (cases "even n")
    case True
    then have "Suc n div 2 = n div 2"
      by (auto elim!: evenE)
    then show ?thesis using Suc True by (simp add: even_iff_mod_2_eq_zero)
  next
    case False
    then have "Suc n div 2 = Suc (n div 2)" "2 * (n div 2) + 1 = n"
      by (auto elim!: oddE)
    then show ?thesis using Suc False by (simp add: even_iff_mod_2_eq_zero)
  qed
qed


lemma filter_Im_mask:
  "filter (\<lambda>i. if i = 0 then False else i mod 2 = 0) [0..<n] =
     map (\<lambda>m. 2 * m + 2) [0..<(n + 1) div 2 - 1]"
proof (cases n)
  case 0
  then show ?thesis by simp
next
  case (Suc k)
  have L: "0 < (n + 1) div 2" using Suc by simp
  have "filter (\<lambda>i. i mod 2 = 0) [0..<n] = 0 # filter (\<lambda>i. i mod 2 = 0) [Suc 0..<n]"
    using Suc by (simp add: upt_conv_Cons)
  moreover have "map (\<lambda>m. 2 * m) [0..<(n + 1) div 2] = 0 # map (\<lambda>m. 2 * m) [Suc 0..<(n + 1) div 2]"
    using L by (simp add: upt_conv_Cons)
  ultimately have t: "filter (\<lambda>i. i mod 2 = 0) [Suc 0..<n] = map (\<lambda>m. 2 * m) [Suc 0..<(n + 1) div 2]"
    using filter_even_upt[of n] by simp
  have "filter (\<lambda>i. if i = 0 then False else i mod 2 = 0) [0..<n] =
        filter (\<lambda>i. if i = 0 then False else i mod 2 = 0) [Suc 0..<n]"
    using Suc by (simp add: upt_conv_Cons)
  also have "\<dots> = filter (\<lambda>i. i mod 2 = 0) [Suc 0..<n]"
    by (rule filter_cong) auto
  also have "\<dots> = map (\<lambda>m. 2 * m) [Suc 0..<(n + 1) div 2]" by (rule t)
  also have "\<dots> = map (\<lambda>m. 2 * m + 2) [0..<(n + 1) div 2 - 1]"
    using L by (intro nth_equalityI) auto
  finally show ?thesis .
qed

lemma filter_Re_mask_even:
  assumes "even n" "0 < n"
  shows "filter (\<lambda>i. if i = n - 1 then False else \<not> i mod 2 = 0) [0..<n] =
     map (\<lambda>m. 2 * m + 1) [0..<(n + 1) div 2 - 1]"
proof -
  obtain k where k: "n = Suc k" using assms by (cases n) auto
  have d: "k div 2 = (n + 1) div 2 - 1" using assms k by (auto elim!: evenE)
  have "filter (\<lambda>i. if i = n - 1 then False else \<not> i mod 2 = 0) [0..<n] =
        filter (\<lambda>i. if i = k then False else \<not> i mod 2 = 0) [0..<k]"
    using k by simp
  also have "\<dots> = filter (\<lambda>i. \<not> i mod 2 = 0) [0..<k]"
    by (rule filter_cong) auto
  also have "\<dots> = map (\<lambda>m. 2 * m + 1) [0..<(n + 1) div 2 - 1]"
    by (simp only: filter_odd_upt d)
  finally show ?thesis .
qed

lemma filter_Re_mask_odd:
  assumes "odd n"
  shows "filter (\<lambda>i. \<not> i mod 2 = 0) [0..<n] = map (\<lambda>m. 2 * m + 1) [0..<(n + 1) div 2 - 1]"
proof -
  have d: "n div 2 = (n + 1) div 2 - 1" using assms by (auto elim!: oddE)
  show ?thesis by (simp only: filter_odd_upt d)
qed

lemma DFT_assemble_eq:
  assumes "length Xf = Nf" "length f = Nf"
    and "filter R [0..<Nf] = map (\<lambda>m. 2 * m + 1) [0..<L - 1]"
    and "filter I [0..<Nf] = map (\<lambda>m. 2 * m + 2) [0..<L - 1]"
  shows "DFT_assemble Xf f L (map R [0..<Nf]) (map I [0..<Nf]) =
     Inr (complex_of_real (Xf ! 0) #
            map (\<lambda>m. Complex (Xf ! (2 * m + 1)) (Xf ! (2 * m + 2))) [0..<L - 1],
          0 # map (\<lambda>m. f ! (2 * m + 2)) [0..<L - 1])"
  using assms
  by (simp add: DFT_assemble_def mask_select_map zip_map_map zip_same_conv_map comp_def)

lemma DFT_unpack_eq:
  assumes len: "length Xf = Nf" "length f = Nf" and pos: "0 < Nf"
  shows "DFT_unpack Nf Xf f =
     Inr (complex_of_real (Xf ! 0) #
            map (\<lambda>m. Complex (Xf ! (2 * m + 1)) (Xf ! (2 * m + 2))) [0..<(Nf + 1) div 2 - 1],
          0 # map (\<lambda>m. f ! (2 * m + 2)) [0..<(Nf + 1) div 2 - 1])"
proof -
  let ?mask = "map (\<lambda>i. i mod 2 = 0) [0..<Nf]"
  have Xm: "mask_select Xf ?mask = Inr (map (nth Xf) (map (\<lambda>m. 2 * m) [0..<(Nf + 1) div 2]))"
    using len by (simp add: mask_select_map filter_even_upt)
  have Im: "?mask[0 := False] = map (\<lambda>i. if i = 0 then False else i mod 2 = 0) [0..<Nf]"
    by (simp add: map_upt_update)
  have Not: "map Not ?mask = map (\<lambda>i. \<not> i mod 2 = 0) [0..<Nf]" by simp
  show ?thesis
  proof (cases "even Nf")
    case True
    have Re: "(map Not ?mask)[Nf - 1 := False] =
        map (\<lambda>i. if i = Nf - 1 then False else \<not> i mod 2 = 0) [0..<Nf]"
      unfolding Not by (simp add: map_upt_update)
    have "DFT_unpack Nf Xf f =
        DFT_assemble Xf f ((Nf + 1) div 2)
          (map (\<lambda>i. if i = Nf - 1 then False else \<not> i mod 2 = 0) [0..<Nf])
          (map (\<lambda>i. if i = 0 then False else i mod 2 = 0) [0..<Nf])"
      using True pos unfolding DFT_unpack_def Let_def Xm Re Im
      by (simp add: even_iff_mod_2_eq_zero)
    then show ?thesis
      using DFT_assemble_eq[OF len filter_Re_mask_even[OF True pos] filter_Im_mask] by simp
  next
    case False
    have "DFT_unpack Nf Xf f =
        DFT_assemble Xf f ((Nf + 1) div 2)
          (map (\<lambda>i. \<not> i mod 2 = 0) [0..<Nf])
          (map (\<lambda>i. if i = 0 then False else i mod 2 = 0) [0..<Nf])"
      using False unfolding DFT_unpack_def Let_def Xm Not Im
      by (simp add: even_iff_mod_2_eq_zero)
    then show ?thesis
      using DFT_assemble_eq[OF len filter_Re_mask_odd[OF False] filter_Im_mask] by simp
  qed
qed


text \<open>
  Claim C6. For every size \<open>Nf > 0\<close> and packed array \<open>Xf\<close> of that length, both parity
  branches of \<open>DFT\<close> build the same spectrum: \<open>Z[0]\<close> is the real coefficient
  \<open>Xf[0]\<close> at frequency \<open>0\<close>, \<open>Z[m]\<close> pairs \<open>Xf[2m-1]\<close> (real part) with \<open>Xf[2m]\<close>
  (imaginary part) for every \<open>m \<ge> 1\<close>, and for even \<open>Nf\<close> the last packed coefficient
  \<open>Xf[Nf-1]\<close> does not enter \<open>Z\<close>: replacing it by any value leaves the result unchanged.
\<close>

theorem DFT_unpack_pairs:
  assumes len: "length Xf = Nf" "length f = Nf" and pos: "0 < Nf"
  shows "\<exists>Z Zf. DFT_unpack Nf Xf f = Inr (Z, Zf) \<and>
           length Z = (Nf + 1) div 2 \<and> length Zf = length Z \<and>
           Z ! 0 = complex_of_real (Xf ! 0) \<and> Zf ! 0 = 0 \<and>
           (\<forall>m. 1 \<le> m \<and> m < length Z \<longrightarrow> Z ! m = Complex (Xf ! (2 * m - 1)) (Xf ! (2 * m))) \<and>
           (even Nf \<longrightarrow> (\<forall>v. DFT_unpack Nf (Xf[Nf - 1 := v]) f = Inr (Z, Zf)))"
proof -
  let ?L = "(Nf + 1) div 2"
  let ?Z = "\<lambda>X. complex_of_real (X ! 0) #
            map (\<lambda>m. Complex (X ! (2 * m + 1)) (X ! (2 * m + 2))) [0..<?L - 1]"
  let ?Zf = "0 # map (\<lambda>m. f ! (2 * m + 2)) [0..<?L - 1]"
  have L: "0 < ?L" using pos by simp
  have eq: "DFT_unpack Nf Xf f = Inr (?Z Xf, ?Zf)"
    by (rule DFT_unpack_eq[OF len pos])
  have lenZ: "length (?Z Xf) = ?L" using L by simp
  have pairs: "(?Z Xf) ! m = Complex (Xf ! (2 * m - 1)) (Xf ! (2 * m))"
    if "1 \<le> m" "m < length (?Z Xf)" for m
  proof -
    from that(1) obtain j where j: "m = Suc j" by (cases m) auto
    have "j < ?L - 1" using that(2) j by simp
    then show ?thesis using j by simp
  qed
  have drop: "DFT_unpack Nf (Xf[Nf - 1 := v]) f = Inr (?Z Xf, ?Zf)" if ev: "even Nf" for v
  proof -
    have eq': "DFT_unpack Nf (Xf[Nf - 1 := v]) f = Inr (?Z (Xf[Nf - 1 := v]), ?Zf)"
      by (rule DFT_unpack_eq) (use len pos in simp_all)
    have N2: "2 * ?L = Nf" using ev by (auto elim!: evenE)
    have z0: "Xf[Nf - 1 := v] ! 0 = Xf ! 0"
      using N2 L by (intro nth_list_update_neq) linarith
    have zm: "Xf[Nf - 1 := v] ! (2 * m + 1) = Xf ! (2 * m + 1) \<and>
              Xf[Nf - 1 := v] ! (2 * m + 2) = Xf ! (2 * m + 2)" if "m < ?L - 1" for m
    proof -
      have "2 * m + 2 < Nf - 1" "2 * m + 1 < Nf - 1" using that N2 by linarith+
      then show ?thesis by simp
    qed
    have "?Z (Xf[Nf - 1 := v]) = ?Z Xf"
      using z0 zm by (simp del: upt_Suc)
    then show ?thesis using eq' by simp
  qed
  show ?thesis
  proof (intro exI conjI allI impI)
    show "DFT_unpack Nf Xf f = Inr (?Z Xf, ?Zf)" by (rule eq)
    show "length (?Z Xf) = ?L" by (rule lenZ)
    show "length ?Zf = length (?Z Xf)" by simp
    show "?Z Xf ! 0 = complex_of_real (Xf ! 0)" by simp
    show "?Zf ! 0 = 0" by simp
    show "?Z Xf ! m = Complex (Xf ! (2 * m - 1)) (Xf ! (2 * m))"
      if "1 \<le> m \<and> m < length (?Z Xf)" for m
      using pairs[of m] that by blast
    show "DFT_unpack Nf (Xf[Nf - 1 := v]) f = Inr (?Z Xf, ?Zf)" if "even Nf" for v
      using drop[OF that] .
  qed
qed

theorem DFT_unpack_pairs_witness:
  "length [10, 11, 12, 13 :: real] = 4 \<and>
   DFT_unpack 4 [10, 11, 12, 13] [0, 1 / 4, 1 / 4, 1 / 2] =
     Inr ([Complex 10 0, Complex 11 12], [0, 1 / 4]) \<and>
   DFT_unpack 4 [10, 11, 12, 99] [0, 1 / 4, 1 / 4, 1 / 2] =
     Inr ([Complex 10 0, Complex 11 12], [0, 1 / 4])"
proof -
  obtain Z Zf where Z: "DFT_unpack 4 [10, 11, 12, 13] [0, 1 / 4, 1 / 4, 1 / 2] = Inr (Z, Zf)"
    and ev: "even (4::nat) \<longrightarrow>
       (\<forall>v. DFT_unpack 4 ([10, 11, 12, 13][4 - 1 := v]) [0, 1 / 4, 1 / 4, 1 / 2] = Inr (Z, Zf))"
    using DFT_unpack_pairs [of "[10, 11, 12, 13]" 4 "[0, 1 / 4, 1 / 4, 1 / 2]"] by auto
  have v: "DFT_unpack 4 [10, 11, 12, 13] [0, 1 / 4, 1 / 4, 1 / 2] =
     Inr ([Complex 10 0, Complex 11 12], [0, 1 / 4])"
    by (simp add: DFT_unpack_def DFT_assemble_def mask_select_def Let_def upt_rec
        complex_of_real_def)
  have "DFT_unpack 4 ([10, 11, 12, 13][4 - 1 := 99]) [0, 1 / 4, 1 / 4, 1 / 2] = Inr (Z, Zf)"
    using ev by simp
  then show ?thesis using v Z by (simp add: eval_nat_numeral)
qed

lemma default_fmax_pos:
  assumes "0 < dt" "\<forall>v. fmax = Some v \<longrightarrow> 0 < v"
  shows "\<exists>fm. default_fmax dt fmax = Inr fm \<and> 0 < fm"
  using assms by (cases fmax) (auto simp: default_fmax_def)

lemma arange_length_pos:
  assumes "0 < T" "0 < step"
  shows "\<exists>ts. arange 0 T step = Inr ts \<and> ts \<noteq> [] \<and>
           length ts = nat \<lceil>fl (fl (T - 0) / step)\<rceil>"
proof -
  have "0 < fl (T - 0)" using assms(1) by (simp add: fl_pos)
  then have "0 < fl (T - 0) / step" using assms(2) by simp
  then have "0 < fl (fl (T - 0) / step)" by (rule fl_pos)
  then have "0 < \<lceil>fl (fl (T - 0) / step)\<rceil>" by (simp only: zero_less_ceiling)
  then have "[0..<nat \<lceil>fl (fl (T - 0) / step)\<rceil>] \<noteq> []" by simp
  then show ?thesis using assms(2) by (simp add: arange_def)
qed

lemma FFT_resample_ok:
  assumes "Xt \<noteq> []" "0 < dt" "0 < fm"
  shows "\<exists>Xs. FFT_resample Xt dt fm = Inr Xs \<and> Xs \<noteq> []"
proof -
  let ?T = "fl (real (length Xt) * dt)"
  have T: "0 < ?T" using assms by (intro fl_pos) simp
  obtain ts where ts: "arange 0 ?T (1 / (2 * fm)) = Inr ts" "ts \<noteq> []"
    using arange_length_pos[OF T, of "1 / (2 * fm)"] assms(3) by auto
  have ls: "linspace 0 ?T (int (length Xt)) =
      Inr (if int (length Xt) = 1 then [0] else
           map (\<lambda>i. 0 + real i * ((?T - 0) / real_of_int (int (length Xt) - 1))) [0..<length Xt])"
    by (simp add: linspace_def)
  show ?thesis
    using T assms ts(2) unfolding FFT_resample_def Let_def ls ts(1) interp_def
    by (auto split: if_splits)
qed

lemma DFT_resample_ok:
  assumes "Xt \<noteq> []" "0 < dt" "0 < fm" and grid: "DFT_resample Xt dt fm \<noteq> Inl ValueError"
  shows "\<exists>Xs. DFT_resample Xt dt fm = Inr Xs \<and> Xs \<noteq> []"
proof -
  let ?T = "fl (real (length Xt) * dt)"
  have T: "0 < ?T" using assms by (intro fl_pos) simp
  obtain ts where ts: "arange 0 ?T (1 / (2 * fm)) = Inr ts" "ts \<noteq> []"
    using arange_length_pos[OF T, of "1 / (2 * fm)"] assms(3) by auto
  obtain t where t: "arange 0 ?T dt = Inr t" "t \<noteq> []"
    using arange_length_pos[OF T assms(2)] by auto
  have eq: "DFT_resample Xt dt fm = interp ts t Xt"
    using T assms(3) by (simp add: DFT_resample_def Let_def t(1) ts(1))
  show ?thesis
    using grid ts(2) t(2) unfolding eq interp_def by (auto split: if_splits)
qed

lemma Ns_of_pos: "Xt \<noteq> [] \<Longrightarrow> 0 < dt \<Longrightarrow> 0 < fm \<Longrightarrow> 0 < Ns_of Xt dt fm"
  by (simp add: Ns_of_def dts_of_def)

lemma FFT_pad_ok:
  assumes "0 \<le> r" "0 < Ns" "Xs \<noteq> []"
  shows "\<exists>Xs'. FFT_pad flag r Ns Xs = Inr Xs' \<and> Xs' \<noteq> []"
proof -
  have p: "0 \<le> r * Ns" using assms by simp
  then have "0 \<le> \<lfloor>r * Ns\<rfloor>" by (rule iffD2[OF zero_le_floor])
  moreover have "py_int (r * Ns) = \<lfloor>r * Ns\<rfloor>" using p by (simp add: py_int_def)
  ultimately have "\<not> py_int (r * Ns) < 0" by simp
  then show ?thesis using assms by (simp add: FFT_pad_def Let_def)
qed


lemma filter_zip_snd_length:
  "length xs = length ys \<Longrightarrow>
     length (filter (\<lambda>p. P (snd p)) (zip xs ys)) = length (filter P ys)"
  by (induction xs ys rule: list_induct2) auto

lemma filter_zip_same: "map fst (filter (\<lambda>p. P (snd p)) (zip ys ys)) = filter P ys"
  by (induction ys) auto

lemma fftfreq_nonneg:
  assumes "0 < d" "0 < n"
  shows "filter (\<lambda>v. 0 \<le> v) (fftfreq n d) =
           map (\<lambda>i. real i / (d * real n)) [0..<(n - 1) div 2 + 1]"
proof -
  have keep: "filter (\<lambda>v. 0 \<le> v) (map (\<lambda>i. real_of_int i / (d * real n)) (map int [0..<(n - 1) div 2 + 1]))
      = map (\<lambda>i. real i / (d * real n)) [0..<(n - 1) div 2 + 1]"
    using assms by (simp add: filter_map comp_def del: upt_Suc)
  have "\<forall>i \<in> set [0..<n div 2]. \<not> 0 \<le> real_of_int (int i - int (n div 2)) / (d * real n)"
    using assms by (auto simp: divide_less_0_iff not_le)
  then have drop: "filter (\<lambda>v. 0 \<le> v)
       (map (\<lambda>i. real_of_int i / (d * real n)) (map (\<lambda>i. int i - int (n div 2)) [0..<n div 2])) = []"
    by (simp add: filter_empty_conv del: upt_Suc)
  show ?thesis
    unfolding fftfreq_def map_append filter_append keep drop by simp
qed

lemma sorted_freqs:
  assumes "0 < d"
  shows "sorted_wrt (<) (map (\<lambda>i. real i / d) [0..<k])"
  using assms by (simp add: sorted_wrt_iff_nth_less divide_strict_right_mono)

lemma FFT_spectrum_freqs:
  assumes ne: "Xs \<noteq> []" and d: "0 < dts" and fin: "FFT_spectrum Ns dts Xs \<noteq> Inl NonFinite"
  shows "\<exists>Xf f. FFT_spectrum Ns dts Xs = Inr (Xf, f) \<and> length Xf = length f \<and>
           f = map (\<lambda>i. real i / (dts * real (length Xs))) [0..<(length Xs - 1) div 2 + 1]"
proof -
  let ?n = "length Xs"
  obtain Xfft where Xfft: "np_fft (map complex_of_real Xs) = Inr Xfft" and lX: "length Xfft = ?n"
    using ne by (simp add: np_fft_def Let_def)
  let ?ffft = "fftfreq ?n dts"
  let ?mask = "map (\<lambda>v. 0 \<le> v) ?ffft"
  have len: "length ?ffft = ?n" using ne by (simp add: length_fftfreq)
  have s1: "mask_select Xfft ?mask = Inr (map fst (filter snd (zip Xfft ?mask)))"
    and s2: "mask_select ?ffft ?mask = Inr (map fst (filter snd (zip ?ffft ?mask)))"
    using len lX by (simp_all add: mask_select_def)
  obtain Xf f where r: "FFT_spectrum Ns dts Xs = Inr (Xf, f)"
    using fin unfolding FFT_spectrum_def Xfft sum.case lX Let_def s1 s2
    by (auto split: if_splits)
  from FFT_spectrum_InrD[OF r] Xfft lX have
    Xf: "length Xf = length (filter (\<lambda>p. 0 \<le> snd p) (zip Xfft ?ffft))"
    and f: "f = map fst (filter (\<lambda>p. 0 \<le> snd p) (zip ?ffft ?ffft))"
    by auto
  have f': "f = filter (\<lambda>v. 0 \<le> v) ?ffft" unfolding f by (rule filter_zip_same)
  have "length Xf = length f"
    unfolding Xf f' using filter_zip_snd_length[of Xfft ?ffft "\<lambda>v. 0 \<le> v"] len lX by simp
  moreover have "f = map (\<lambda>i. real i / (dts * real ?n)) [0..<(?n - 1) div 2 + 1]"
    unfolding f' using fftfreq_nonneg[OF d, of ?n] ne by simp
  ultimately show ?thesis using r by blast
qed

lemma freq_list_props:
  assumes "0 < d" "f = map (\<lambda>i. real i / d) [0..<Suc k]"
  shows "f \<noteq> [] \<and> f ! 0 = 0 \<and> (\<forall>v \<in> set f. 0 \<le> v) \<and> sorted_wrt (<) f"
proof -
  have "f ! 0 = 0" unfolding assms(2) by (simp add: nth_append upt_conv_Cons del: upt_Suc)
  moreover have "\<forall>v \<in> set f. 0 \<le> v" unfolding assms(2) using assms(1) by auto
  moreover have "sorted_wrt (<) f" unfolding assms(2) by (rule sorted_freqs[OF assms(1)])
  moreover have "f \<noteq> []" unfolding assms(2) by simp
  ultimately show ?thesis by blast
qed


lemma rfft_ok: "0 < Nf \<Longrightarrow> \<exists>Xf. rfft Xs Nf = Inr Xf \<and> length Xf = Nf"
  by (simp add: rfft_def Let_def)

lemma DFT_unpack_freqs:
  assumes len: "length Xf = Nf" and pos: "0 < Nf"
  shows "\<exists>Z. DFT_unpack Nf Xf (rfftfreq Nf d) =
           Inr (Z, map (\<lambda>m. real m / (real Nf * d)) [0..<Suc ((Nf + 1) div 2 - 1)]) \<and>
           length Z = Suc ((Nf + 1) div 2 - 1)"
proof -
  let ?L = "(Nf + 1) div 2"
  have lf: "length (rfftfreq Nf d) = Nf" by (simp add: rfftfreq_def)
  have fr: "rfftfreq Nf d ! (2 * m + 2) = real (Suc m) / (real Nf * d)" if "m < ?L - 1" for m
  proof -
    have "2 * m + 2 < Nf" using that by linarith
    then show ?thesis by (simp add: rfftfreq_def)
  qed
  have "0 # map (\<lambda>m. rfftfreq Nf d ! (2 * m + 2)) [0..<?L - 1] =
        map (\<lambda>m. real m / (real Nf * d)) [0..<Suc (?L - 1)]"
  proof (rule nth_equalityI)
    show "length (0 # map (\<lambda>m. rfftfreq Nf d ! (2 * m + 2)) [0..<?L - 1]) =
          length (map (\<lambda>m. real m / (real Nf * d)) [0..<Suc (?L - 1)])" by simp
  next
    fix i assume "i < length (0 # map (\<lambda>m. rfftfreq Nf d ! (2 * m + 2)) [0..<?L - 1])"
    then have i: "i < Suc (?L - 1)" by simp
    show "(0 # map (\<lambda>m. rfftfreq Nf d ! (2 * m + 2)) [0..<?L - 1]) ! i =
          map (\<lambda>m. real m / (real Nf * d)) [0..<Suc (?L - 1)] ! i"
    proof (cases i)
      case 0
      then show ?thesis by (simp add: upt_conv_Cons del: upt_Suc)
    next
      case (Suc j)
      then have j: "j < ?L - 1" using i by simp
      have "map (\<lambda>m. real m / (real Nf * d)) [0..<Suc (?L - 1)] ! i = real i / (real Nf * d)"
        using i by (simp only: nth_map_upt add_0 diff_zero)
      then show ?thesis using Suc j fr[OF j] by simp
    qed
  qed
  then show ?thesis
    using DFT_unpack_eq[OF len lf pos] by simp
qed

lemma DFT_freqs:
  assumes Xt: "Xt \<noteq> []" and dt: "0 < dt" and fm: "default_fmax dt fmax = Inr fm" "0 < fm"
    and Nf: "0 < Nf" and fin: "DFT Xt dt fmax Nf \<noteq> Inl NonFinite"
    and grid: "DFT Xt dt fmax Nf \<noteq> Inl ValueError"
  shows "\<exists>Xf f. DFT Xt dt fmax Nf = Inr (Xf, f) \<and> length Xf = length f \<and>
           f = map (\<lambda>m. real m / (real Nf * dts_of fm)) [0..<Suc ((Nf + 1) div 2 - 1)]"
proof -
  have "DFT_resample Xt dt fm \<noteq> Inl ValueError"
    using grid by (auto simp: DFT_def fm(1))
  then obtain Xs where Xs: "DFT_resample Xt dt fm = Inr Xs"
    using DFT_resample_ok[OF Xt dt fm(2)] by blast
  obtain Xf where Xf: "rfft Xs Nf = Inr Xf" "length Xf = Nf"
    using rfft_ok[OF Nf] by blast
  have lf: "length (rfftfreq Nf (dts_of fm)) = Nf" by (simp add: rfftfreq_def)
  obtain Z where Z: "DFT_unpack Nf Xf (rfftfreq Nf (dts_of fm)) =
           Inr (Z, map (\<lambda>m. real m / (real Nf * dts_of fm)) [0..<Suc ((Nf + 1) div 2 - 1)])"
     "length Z = Suc ((Nf + 1) div 2 - 1)"
    using DFT_unpack_freqs[OF Xf(2) Nf] by blast
  let ?Ef = "((Xf ! 0) ^ 2 + 2 * (\<Sum>x\<leftarrow>tl Xf. x ^ 2)) / real Nf"
  have eq: "DFT Xt dt fmax Nf =
       (if ?Ef = 0 then Inl NonFinite
        else Inr (map (\<lambda>X. complex_of_real (sqrt ((\<Sum>x\<leftarrow>Xs. \<bar>x\<bar> ^ 2) / ?Ef)) * X /
                          complex_of_real (Ns_of Xt dt fm / 2)) Z,
                  map (\<lambda>m. real m / (real Nf * dts_of fm)) [0..<Suc ((Nf + 1) div 2 - 1)]))"
    unfolding DFT_def fm(1) Xs Xf(1) sum.case Let_def Xf(2) lf Z(1) prod.case ..
  show ?thesis
    using fin Z(2) unfolding eq by (auto split: if_splits simp del: upt_Suc)
qed

text \<open>
  Where \<open>np.arange\<close> gives the original grid of \<open>DFT\<close> its \<open>N\<close> points, and the
  spectrum has energy, both transforms return a pair \<open>(Xf, f)\<close> of equal lengths whose
  frequencies are non-negative and strictly ascending from \<open>f[0] = 0\<close>; \<open>FFT\<close>, whose
  grid is a \<open>linspace\<close> of \<open>N\<close> points, needs no condition on the grid.
\<close>

lemma spectrum_frequencies_exact_grid:
  assumes N: "2 \<le> length Xt" and dt: "0 < dt"
    and fmax: "\<forall>v. fmax = Some v \<longrightarrow> 0 < v"
    and r: "0 \<le> r" and Nf: "0 < Nf"
  shows "(FFT Xt dt fmax r flag \<noteq> Inl NonFinite \<longrightarrow>
            (\<exists>Xf f. FFT Xt dt fmax r flag = Inr (Xf, f) \<and> length Xf = length f \<and>
               f \<noteq> [] \<and> f ! 0 = 0 \<and> (\<forall>v \<in> set f. 0 \<le> v) \<and> sorted_wrt (<) f)) \<and>
         (DFT Xt dt fmax Nf \<noteq> Inl NonFinite \<and> DFT Xt dt fmax Nf \<noteq> Inl ValueError \<longrightarrow>
            (\<exists>Xf f. DFT Xt dt fmax Nf = Inr (Xf, f) \<and> length Xf = length f \<and>
               f \<noteq> [] \<and> f ! 0 = 0 \<and> (\<forall>v \<in> set f. 0 \<le> v) \<and> sorted_wrt (<) f))"
proof (intro conjI impI)
  have Xt: "Xt \<noteq> []" using N by auto
  obtain fm where fm: "default_fmax dt fmax = Inr fm" "0 < fm"
    using default_fmax_pos[OF dt fmax] by blast
  have d: "0 < dts_of fm" using fm(2) by (simp add: dts_of_def)
  {
    assume fin: "FFT Xt dt fmax r flag \<noteq> Inl NonFinite"
    obtain Xs where Xs: "FFT_resample Xt dt fm = Inr Xs" "Xs \<noteq> []"
      using FFT_resample_ok[OF Xt dt fm(2)] by blast
    obtain Xs' where Xs': "FFT_pad flag r (Ns_of Xt dt fm) Xs = Inr Xs'" "Xs' \<noteq> []"
      using FFT_pad_ok[OF r Ns_of_pos[OF Xt dt fm(2)] Xs(2)] by blast
    have eq: "FFT Xt dt fmax r flag = FFT_spectrum (Ns_of Xt dt fm) (dts_of fm) Xs'"
      by (simp add: FFT_def fm(1) Xs(1) Xs'(1))
    obtain Xf f where R: "FFT_spectrum (Ns_of Xt dt fm) (dts_of fm) Xs' = Inr (Xf, f)"
      "length Xf = length f"
      "f = map (\<lambda>i. real i / (dts_of fm * real (length Xs'))) [0..<(length Xs' - 1) div 2 + 1]"
      using FFT_spectrum_freqs[OF Xs'(2) d] fin unfolding eq by blast
    have "0 < dts_of fm * real (length Xs')" using d Xs'(2) by simp
    from freq_list_props[OF this, of f "(length Xs' - 1) div 2"] R(3)
    have "f \<noteq> [] \<and> f ! 0 = 0 \<and> (\<forall>v \<in> set f. 0 \<le> v) \<and> sorted_wrt (<) f" by simp
    then show "\<exists>Xf f. FFT Xt dt fmax r flag = Inr (Xf, f) \<and> length Xf = length f \<and>
               f \<noteq> [] \<and> f ! 0 = 0 \<and> (\<forall>v \<in> set f. 0 \<le> v) \<and> sorted_wrt (<) f"
      using R(1,2) unfolding eq by blast
  }
  {
    assume "DFT Xt dt fmax Nf \<noteq> Inl NonFinite \<and> DFT Xt dt fmax Nf \<noteq> Inl ValueError"
    then have fin: "DFT Xt dt fmax Nf \<noteq> Inl NonFinite"
      and grid: "DFT Xt dt fmax Nf \<noteq> Inl ValueError" by simp_all
    obtain Xf f where R: "DFT Xt dt fmax Nf = Inr (Xf, f)" "length Xf = length f"
      "f = map (\<lambda>m. real m / (real Nf * dts_of fm)) [0..<Suc ((Nf + 1) div 2 - 1)]"
      using DFT_freqs[OF Xt dt fm Nf fin grid] by blast
    have "0 < real Nf * dts_of fm" using d Nf by simp
    from freq_list_props[OF this R(3)]
    show "\<exists>Xf f. DFT Xt dt fmax Nf = Inr (Xf, f) \<and> length Xf = length f \<and>
               f \<noteq> [] \<and> f ! 0 = 0 \<and> (\<forall>v \<in> set f. 0 \<le> v) \<and> sorted_wrt (<) f"
      using R(1,2) by blast
  }
qed


lemma DFT_35: "DFT [3, 5] 1 (Some (1 / 4)) 1 = Inr ([6], [0])"
proof -
  have a: "default_fmax 1 (Some (1 / 4)) = Inr (1 / 4)" by (simp add: default_fmax_def)
  have b: "DFT_resample [3, 5] 1 (1 / 4) = Inr [3]"
    by (simp add: DFT_resample_def arange_def interp_def Let_def upt_rec fl_exact_examples)
  have n: "Ns_of [3, 5] 1 (1 / 4) = 1" "dts_of (1 / 4) = 2"
    by (simp_all add: Ns_of_def dts_of_def)
  have x: "rfft [3] 1 = Inr [3]" by (simp add: rfft_def)
  have f: "rfftfreq (length [3 :: real]) 2 = [0]" by (simp add: rfftfreq_def)
  have u: "DFT_unpack 1 [3] [0] = Inr ([3], [0])"
    by (simp add: DFT_unpack_def DFT_assemble_def mask_select_def)
  show ?thesis
    unfolding DFT_def a sum.case b x Let_def n f u by simp
qed

lemma spectrum_frequencies_exact_grid_example:
  "2 \<le> length [3, 5 :: real] \<and>
   FFT [3, 5] 1 (Some (1 / 4)) 2 False = Inr ([6], [0]) \<and>
   DFT [3, 5] 1 (Some (1 / 4)) 1 = Inr ([6], [0]) \<and>
   (\<exists>Xf f. FFT [3, 5] 1 (Some (1 / 4)) 2 False = Inr (Xf, f) \<and> length Xf = length f \<and>
      f \<noteq> [] \<and> f ! 0 = 0 \<and> (\<forall>v \<in> set f. 0 \<le> v) \<and> sorted_wrt (<) f) \<and>
   (\<exists>Xf f. DFT [3, 5] 1 (Some (1 / 4)) 1 = Inr (Xf, f) \<and> length Xf = length f \<and>
      f \<noteq> [] \<and> f ! 0 = 0 \<and> (\<forall>v \<in> set f. 0 \<le> v) \<and> sorted_wrt (<) f)"
  using spectrum_frequencies_exact_grid [of "[3, 5]" 1 "Some (1 / 4)" 2 1 False] FFT_35 DFT_35 by simp

lemma interp_length_mismatch: "length xp \<noteq> length fp \<Longrightarrow> interp xs xp fp = Inl ValueError"
  by (simp add: interp_def)

lemma arange_three_tenths:
  "arange 0 (fl (3 * (3602879701896397 / 36028797018963968)))
     (3602879701896397 / 36028797018963968) =
   Inr [0, 3602879701896397 / 36028797018963968, 2 * (3602879701896397 / 36028797018963968),
        3 * (3602879701896397 / 36028797018963968)]"
  by (simp add: arange_def fl_eqI[of "-2"] fl_eqI[of 1] round_even_def Let_def upt_rec)

text \<open>
  Claim C9 (fails on the code). For three samples and \<open>dt = 0.1\<close> (the double
  \<open>3602879701896397 / 2^55\<close>) the double product \<open>T = 3*dt\<close> is \<open>0.30000000000000004\<close> and
  the double quotient \<open>T/dt\<close> is \<open>3.0000000000000004\<close>, so \<open>np.arange(0, T, dt)\<close> on line
  95 has four points for the three samples of \<open>Xt\<close>, \<open>np.interp\<close> raises \<open>ValueError\<close> and
  \<open>DFT\<close> returns no pair.
\<close>

theorem DFT_raises_on_arange_grid:
  "fl (1 / 10) = 3602879701896397 / 36028797018963968 \<and>
   arange 0 (fl (3 * (3602879701896397 / 36028797018963968)))
     (3602879701896397 / 36028797018963968) =
   Inr [0, 3602879701896397 / 36028797018963968, 2 * (3602879701896397 / 36028797018963968),
        3 * (3602879701896397 / 36028797018963968)] \<and>
   DFT [1, 2, 3] (3602879701896397 / 36028797018963968) (Some 5) 1000 = Inl ValueError"
proof -
  let ?dt = "3602879701896397 / 36028797018963968 :: real"
  have T: "fl (real (length [1, 2, 3 :: real]) * ?dt) = fl (3 * ?dt)" by simp
  have "0 < fl (3 * ?dt)" by (intro fl_pos) simp
  then have nz: "fl (3 * ?dt) \<noteq> 0" by simp
  obtain ts where ts: "arange 0 (fl (3 * ?dt)) (1 / (2 * 5)) = Inr ts"
    by (simp add: arange_def)
  have r: "DFT_resample [1, 2, 3] ?dt 5 = Inl ValueError"
    unfolding DFT_resample_def Let_def T arange_three_tenths ts using nz
    by (simp add: interp_length_mismatch)
  have "DFT [1, 2, 3] ?dt (Some 5) 1000 = Inl ValueError"
    by (simp add: DFT_def default_fmax_def r)
  then show ?thesis using fl_tenth arange_three_tenths by simp
qed

end
